theory Spec2Isabelle
  imports Main
begin

section \<open>YAML iframe preview: the extension's functions as HOL definitions\<close>

text \<open>
  The development follows \<^verbatim>\<open>src/extension.ts\<close>. What the platform supplies (the URL
  parser behind \<^verbatim>\<open>new URL\<close>, the webview's \<^verbatim>\<open>cspSource\<close>, the webview URI of the
  bundled page, the file system path of the bundled page) is collected in a record of
  parameters, so that every statement below holds for whatever the platform returns.
\<close>

subsection \<open>Platform values\<close>

text \<open>The two properties of a parsed URL that the extension reads.\<close>

record URL =
  protocol :: string
  origin :: string

text \<open>
  \<open>newURL\<close> is \<^verbatim>\<open>new URL(value)\<close>, with \<open>None\<close> where the constructor throws;
  \<open>cspSource\<close> is \<^verbatim>\<open>webview.cspSource\<close>; \<open>bundledDemoUri\<close> is
  \<^verbatim>\<open>webview.asWebviewUri(joinPath(extensionUri, "src", "./demo/index.html")).toString()\<close>;
  \<open>demoFsPath\<close> is \<^verbatim>\<open>joinPath(extensionUri, "src", "demo", "index.html").fsPath\<close>.
\<close>

record Host =
  newURL :: "string \<Rightarrow> URL option"
  cspSource :: string
  bundledDemoUri :: string
  demoFsPath :: string

datatype Error =
    InvalidURL            \<comment> \<open>the TypeError of \<^verbatim>\<open>new URL\<close>\<close>
  | ListenError           \<comment> \<open>the \<^verbatim>\<open>error\<close> event of \<^verbatim>\<open>server.listen\<close>\<close>
  | DemoServerFailedToBind \<comment> \<open>\<^verbatim>\<open>new Error("Demo server failed to bind")\<close>\<close>
  | WebviewDisposed       \<comment> \<open>the editor's \<^verbatim>\<open>Error("Webview is disposed")\<close>\<close>

subsection \<open>Configuration (lines 51 to 54)\<close>

text \<open>
  A setting is \<open>None\<close> when it is unset; \<^verbatim>\<open>cfg.get(name, default)\<close> then returns the
  default. The number is an integer count of milliseconds.
\<close>

record Configuration =
  cfg_remoteUrl :: "string option"
  cfg_debounceMs :: "int option"
  cfg_allowHttp :: "bool option"

definition cfg_get :: "'a option \<Rightarrow> 'a \<Rightarrow> 'a" where
  "cfg_get setting dflt = (case setting of None \<Rightarrow> dflt | Some v \<Rightarrow> v)"

definition remoteUrl_of :: "Configuration \<Rightarrow> string" where
  "remoteUrl_of cfg = cfg_get (cfg_remoteUrl cfg) []"

definition debounceMs_of :: "Configuration \<Rightarrow> int" where
  "debounceMs_of cfg = max 0 (cfg_get (cfg_debounceMs cfg) 300)"

definition allowHttp_of :: "Configuration \<Rightarrow> bool" where
  "allowHttp_of cfg = cfg_get (cfg_allowHttp cfg) True"

subsection \<open>isHttpsUrl (lines 103 to 111)\<close>

text \<open>
  The argument is \<^verbatim>\<open>string | undefined\<close>; \<^verbatim>\<open>!value\<close> holds for \<^verbatim>\<open>undefined\<close> and for
  the empty string. The \<^verbatim>\<open>catch\<close> turns a parse failure into \<^verbatim>\<open>false\<close>.
\<close>

definition isHttpsUrl :: "Host \<Rightarrow> string option \<Rightarrow> bool" where
  "isHttpsUrl host v =
     (case v of
        None \<Rightarrow> False
      | Some s \<Rightarrow>
          if s = [] then False
          else (case newURL host s of
                  None \<Rightarrow> False
                | Some u \<Rightarrow> protocol u = ''https:''))"

subsection \<open>resolveAppSrc (lines 113 to 141)\<close>

text \<open>
  The function returns the three strings of \<open>AppSrc\<close>. The tag beside them records
  which of the three \<^verbatim>\<open>return\<close> statements produced the result; it is the content
  source the specification speaks of. \<^verbatim>\<open>new URL(demoUrl)\<close> at line 126 is not guarded, so a
  local address that does not parse raises.
\<close>

datatype ContentSource = Remote | LocalServed | LocalBundled

record AppSrc =
  src :: string
  frameSrcCsp :: string
  targetOrigin :: string

definition truthy :: "string option \<Rightarrow> bool" where
  "truthy v = (case v of None \<Rightarrow> False | Some s \<Rightarrow> s \<noteq> [])"

definition resolveAppSrc ::
  "Host \<Rightarrow> string \<Rightarrow> string option \<Rightarrow> bool \<Rightarrow> Error + (ContentSource \<times> AppSrc)" where
  "resolveAppSrc host remoteUrl demoUrl allowHttp =
     (if isHttpsUrl host (Some remoteUrl) then
        (case newURL host remoteUrl of
           None \<Rightarrow> Inl InvalidURL
         | Some u \<Rightarrow>
             Inr (Remote, \<lparr>src = remoteUrl, frameSrcCsp = origin u, targetOrigin = origin u\<rparr>))
      else if allowHttp \<and> truthy demoUrl then
        (case newURL host (the demoUrl) of
           None \<Rightarrow> Inl InvalidURL
         | Some u \<Rightarrow>
             Inr (LocalServed,
                  \<lparr>src = the demoUrl, frameSrcCsp = origin u, targetOrigin = origin u\<rparr>))
      else
        Inr (LocalBundled,
             \<lparr>src = bundledDemoUri host,
              frameSrcCsp = cspSource host @ '' vscode-resource:'',
              targetOrigin = ''*''\<rparr>))"

subsection \<open>The request handler of startDemoServer (lines 226 to 242)\<close>

text \<open>
  \<^verbatim>\<open>req.url\<close> is optional; \<^verbatim>\<open>req.url.split("?")[0]\<close> is the part before the first
  question mark. A fresh response has status 200 and no header. The file is read when the
  request is handled: \<open>readFile\<close> is the file system at that moment, \<open>None\<close> where the
  read fails.
\<close>

record Response =
  statusCode :: nat
  headers :: "(string \<times> string) list"
  body :: string

definition freshResponse :: Response where
  "freshResponse = \<lparr>statusCode = 200, headers = [], body = []\<rparr>"

definition urlPath :: "string option \<Rightarrow> string" where
  "urlPath url = (if truthy url then takeWhile (\<lambda>c. c \<noteq> CHR ''?'') (the url) else ''/'')"

definition requestHandler :: "(string \<Rightarrow> string option) \<Rightarrow> string \<Rightarrow> string option \<Rightarrow> Response" where
  "requestHandler readFile demoPath url =
     (if urlPath url \<noteq> ''/'' \<and> urlPath url \<noteq> ''/index.html'' then
        freshResponse\<lparr>statusCode := 404, body := ''Not Found''\<rparr>
      else
        (case readFile demoPath of
           Some html \<Rightarrow>
             freshResponse\<lparr>headers := [(''Content-Type'', ''text/html; charset=utf-8'')],
                            body := html\<rparr>
         | None \<Rightarrow> freshResponse\<lparr>statusCode := 500, body := ''Failed to load demo''\<rparr>))"

subsection \<open>startDemoServer (lines 221 to 258)\<close>

text \<open>
  The port number is written in decimal into the address of the served page.
\<close>

function showNat :: "nat \<Rightarrow> string" where
  "showNat n =
     (if n < 10 then [''0123456789'' ! n]
      else showNat (n div 10) @ [''0123456789'' ! (n mod 10)])"
  by pat_completeness auto
termination
  by (relation "measure id") auto

declare showNat.simps [simp del]

definition demoServerUrl :: "nat \<Rightarrow> string" where
  "demoServerUrl port = ''http://127.0.0.1:'' @ showNat port @ ''/index.html''"

text \<open>
  What \<^verbatim>\<open>server.listen(0, "127.0.0.1")\<close> and \<^verbatim>\<open>server.address()\<close> do is decided by
  the operating system: the listen fails, or the address is \<^verbatim>\<open>null\<close>, a string, or an
  address record with the port the system chose.
\<close>

datatype ListenOutcome = ListenFails | AddressNull | AddressString string | AddressInfo nat

datatype ServerState = Listening nat | Closed | NeverBound

text \<open>
  The state of a server once its listen has settled with an outcome; until then, and
  after a failed listen, it is \<open>NeverBound\<close>.
\<close>

definition serverStateOf :: "ListenOutcome \<Rightarrow> ServerState" where
  "serverStateOf outcome =
     (case outcome of ListenFails \<Rightarrow> NeverBound | AddressInfo port \<Rightarrow> Listening port | _ \<Rightarrow> Closed)"

subsection \<open>The state the command works on\<close>

text \<open>
  A document of the editor, under its \<^verbatim>\<open>uri.toString()\<close>; the extension holds a
  reference to the live document, so it reads the current text and version.
\<close>

record DocState =
  fsPath :: string
  fileName :: string
  languageId :: string
  getText :: string
  version :: int

text \<open>The payload of a \<^verbatim>\<open>yaml:update\<close> message (lines 67 to 76).\<close>

record Payload =
  yaml :: string
  uri :: string
  p_fileName :: string
  p_languageId :: string
  p_version :: int

text \<open>
  A pending timer of the event loop: its handle, the time it is due, and the callback it
  runs, which is the arrow function of line 66 closed over a panel and a document.
\<close>

record Timeout =
  handle :: nat
  due :: nat
  cbPanel :: nat
  cbDoc :: string

text \<open>
  The variables one run of the command closes over from line 56 on: the document key,
  the \<^verbatim>\<open>timer\<close> variable of \<^verbatim>\<open>debounce\<close>, the delay, the server it started, and
  whether its change subscription (\<^verbatim>\<open>disposable\<close>) is still active.
\<close>

record Session =
  key :: string
  timer :: "nat option"
  delayMs :: nat
  demoServer :: "nat option"
  subscribed :: bool

record WebviewPanel =
  html :: "(ContentSource \<times> AppSrc) option"
  disposed :: bool

text \<open>
  An invocation of the command that has not returned yet. The command awaits twice: at
  line 36 for \<^verbatim>\<open>showTextDocument\<close>, holding the document key, and at line 59 (inside
  \<^verbatim>\<open>startDemoServer\<close>, line 244) for the listen, holding the key, the panel it created,
  the three settings it read and the server it created.
\<close>

datatype Suspended =
    AwaitShow string
  | AwaitListen string nat string int bool nat
  | Settled

text \<open>
  \<open>previewByDoc\<close> is the map of line 8, from a document key to the panel of its entry.
  \<open>posted\<close> lists the messages posted to webviews in order, each with its panel;
  \<open>uncaught\<close> lists the errors thrown out of timer callbacks; \<open>servers\<close> has one
  entry for every server created; \<open>commands\<close> has one entry for every invocation of
  the command that reached its first await.
\<close>

record World =
  now :: nat
  documents :: "string \<Rightarrow> DocState"
  previewByDoc :: "string \<Rightarrow> nat option"
  panels :: "nat \<Rightarrow> WebviewPanel option"
  nextPanel :: nat
  sessions :: "nat \<Rightarrow> Session option"
  servers :: "ServerState list"
  timeouts :: "Timeout list"
  nextHandle :: nat
  posted :: "(nat \<times> Payload) list"
  notices :: "string list"
  revealed :: "nat list"
  uncaught :: "Error list"
  commands :: "Suspended list"

definition activate :: "(string \<Rightarrow> DocState) \<Rightarrow> World" where
  "activate docs =
     \<lparr>now = 0, documents = docs, previewByDoc = (\<lambda>k. None), panels = (\<lambda>p. None),
      nextPanel = 0, sessions = (\<lambda>p. None), servers = [], timeouts = [], nextHandle = 0,
      posted = [], notices = [], revealed = [], uncaught = [], commands = []\<rparr>"

text \<open>
  Lines 244 to 257 of \<^verbatim>\<open>startDemoServer\<close>. A failed listen rejects; an address that is
  \<^verbatim>\<open>null\<close> or a string closes the server and throws; otherwise the server stays
  listening and is returned with the address of the page. The server is named by its
  place in \<open>servers\<close>.
\<close>

definition startDemoServer :: "ListenOutcome \<Rightarrow> World \<Rightarrow> (Error + nat \<times> string) \<times> World" where
  "startDemoServer outcome w =
     (case outcome of
        ListenFails \<Rightarrow> (Inl ListenError, w\<lparr>servers := servers w @ [NeverBound]\<rparr>)
      | AddressNull \<Rightarrow> (Inl DemoServerFailedToBind, w\<lparr>servers := servers w @ [Closed]\<rparr>)
      | AddressString a \<Rightarrow> (Inl DemoServerFailedToBind, w\<lparr>servers := servers w @ [Closed]\<rparr>)
      | AddressInfo port \<Rightarrow>
          (Inr (length (servers w), demoServerUrl port),
           w\<lparr>servers := servers w @ [Listening port]\<rparr>))"

text \<open>
  A request reaches the handler when a server listens on the port; the handler closes
  over the path of the bundled page only.
\<close>

definition serveRequest ::
  "Host \<Rightarrow> (string \<Rightarrow> string option) \<Rightarrow> nat \<Rightarrow> string option \<Rightarrow> World
     \<Rightarrow> Response option \<times> World" where
  "serveRequest host readFile port url w =
     (if Listening port \<in> set (servers w)
      then (Some (requestHandler readFile (demoFsPath host) url), w)
      else (None, w))"

subsection \<open>debounce (lines 260 to 266) and the timer callback (lines 66 to 77)\<close>

text \<open>
  Time counts milliseconds. The platform's \<^verbatim>\<open>setTimeout\<close> takes a delay from 1 to
  \<open>2\<^sup>3\<^sup>1 - 1\<close> as it is and replaces every other delay by 1. At time \<open>now\<close> it puts
  a timer due at \<open>now\<close> plus that delay into the event loop and returns a fresh handle;
  \<^verbatim>\<open>clearTimeout\<close> takes the timer with the handle out, and does nothing when that timer
  has already run.
\<close>

definition timerDelay :: "nat \<Rightarrow> nat" where
  "timerDelay delay = (if 1 \<le> delay \<and> delay \<le> 2147483647 then delay else 1)"

definition clearTimeout :: "nat \<Rightarrow> World \<Rightarrow> World" where
  "clearTimeout h w = w\<lparr>timeouts := filter (\<lambda>tm. handle tm \<noteq> h) (timeouts w)\<rparr>"

definition setTimeout :: "nat \<Rightarrow> string \<Rightarrow> nat \<Rightarrow> World \<Rightarrow> nat \<times> World" where
  "setTimeout p k delay w =
     (nextHandle w,
      w\<lparr>timeouts := timeouts w @
           [\<lparr>handle = nextHandle w, due = now w + timerDelay delay, cbPanel = p,
             cbDoc = k\<rparr>],
        nextHandle := Suc (nextHandle w)\<rparr>)"

text \<open>A call of the debounced function of the session of panel \<open>p\<close>.\<close>

definition sendUpdate :: "nat \<Rightarrow> World \<Rightarrow> World" where
  "sendUpdate p w =
     (case sessions w p of
        None \<Rightarrow> w
      | Some s \<Rightarrow>
          (let w1 = (case timer s of None \<Rightarrow> w | Some h \<Rightarrow> clearTimeout h w);
               hw = setTimeout p (key s) (delayMs s) w1
           in (snd hw)\<lparr>sessions := (sessions (snd hw))(p := Some (s\<lparr>timer := Some (fst hw)\<rparr>))\<rparr>))"

definition snapshot :: "string \<Rightarrow> DocState \<Rightarrow> Payload" where
  "snapshot k d =
     \<lparr>yaml = getText d, uri = k, p_fileName = fileName d, p_languageId = languageId d,
      p_version = version d\<rparr>"

text \<open>
  The callback reads \<^verbatim>\<open>panel.webview\<close> first. The editor refuses that on a disposed
  panel and throws; nothing is posted then, and the error leaves the callback uncaught.
\<close>

definition panelDisposed :: "World \<Rightarrow> nat \<Rightarrow> bool" where
  "panelDisposed w p = (case panels w p of None \<Rightarrow> False | Some pn \<Rightarrow> disposed pn)"

definition timerCallback :: "Timeout \<Rightarrow> World \<Rightarrow> World" where
  "timerCallback tm w =
     (if panelDisposed w (cbPanel tm) then w\<lparr>uncaught := uncaught w @ [WebviewDisposed]\<rparr>
      else w\<lparr>posted := posted w @
                  [(cbPanel tm, snapshot (cbDoc tm) (documents w (cbDoc tm)))]\<rparr>)"

text \<open>
  Time passes to \<open>t\<close>: the timers due by then run, earliest first (in the order they were
  set where two are due together), and leave the event loop.
\<close>

definition advance :: "nat \<Rightarrow> World \<Rightarrow> World" where
  "advance t w =
     (fold timerCallback (sort_key due (filter (\<lambda>tm. due tm \<le> t) (timeouts w))) w)
       \<lparr>timeouts := filter (\<lambda>tm. \<not> due tm \<le> t) (timeouts w), now := max (now w) t\<rparr>"

subsection \<open>The change listener (lines 82 to 85) and the dispose handler (lines 87 to 91)\<close>

definition changeListener :: "nat \<Rightarrow> string \<Rightarrow> World \<Rightarrow> World" where
  "changeListener p u w =
     (case sessions w p of
        None \<Rightarrow> w
      | Some s \<Rightarrow> if u \<noteq> key s then w else sendUpdate p w)"

text \<open>
  The editor calls every listener whose subscription is active; \<open>notifyListener\<close> is
  what it does for the listener of one panel.
\<close>

definition notifyListener :: "string \<Rightarrow> nat \<Rightarrow> World \<Rightarrow> World" where
  "notifyListener u p v =
     (case sessions v p of
        None \<Rightarrow> v
      | Some s \<Rightarrow> if subscribed s then changeListener p u v else v)"

definition fireDidChange :: "string \<Rightarrow> World \<Rightarrow> World" where
  "fireDidChange u w =
     fold (\<lambda>p v. case sessions v p of
                    None \<Rightarrow> v
                  | Some s \<Rightarrow> if subscribed s then changeListener p u v else v)
          [0..<nextPanel w] w"

text \<open>The editor changes the text of a document, gives it a version, and notifies.\<close>

definition changeTextDocument :: "string \<Rightarrow> string \<Rightarrow> int \<Rightarrow> World \<Rightarrow> World" where
  "changeTextDocument u txt ver w =
     fireDidChange u
       (w\<lparr>documents := (documents w)(u := (documents w u)\<lparr>getText := txt, version := ver\<rparr>)\<rparr>)"

definition closeServer :: "nat option \<Rightarrow> ServerState list \<Rightarrow> ServerState list" where
  "closeServer sv svs = (case sv of None \<Rightarrow> svs | Some i \<Rightarrow> svs[i := Closed])"

definition onDidDispose :: "nat \<Rightarrow> World \<Rightarrow> World" where
  "onDidDispose p w =
     (case sessions w p of
        None \<Rightarrow> w
      | Some s \<Rightarrow>
          w\<lparr>sessions := (sessions w)(p := Some (s\<lparr>subscribed := False\<rparr>)),
            servers := closeServer (demoServer s) (servers w),
            previewByDoc := (previewByDoc w)(key s := None)\<rparr>)"

text \<open>
  The panel is closed, by the user or the editor: the editor marks it disposed and fires
  its dispose event once.
\<close>

definition disposePanel :: "nat \<Rightarrow> World \<Rightarrow> World" where
  "disposePanel p w =
     (case panels w p of
        None \<Rightarrow> w
      | Some pn \<Rightarrow>
          if disposed pn then w
          else onDidDispose p (w\<lparr>panels := (panels w)(p := Some (pn\<lparr>disposed := True\<rparr>))\<rparr>))"

subsection \<open>The command (lines 10 to 94)\<close>

text \<open>
  The YAML check of lines 18 to 21. \<^verbatim>\<open>toLowerCase\<close> maps the letters A to Z to a to z
  and leaves every other character as it is.
\<close>

definition toLowerCase :: "string \<Rightarrow> string" where
  "toLowerCase s =
     map (\<lambda>c. if (65::nat) \<le> of_char c \<and> of_char c \<le> (90::nat)
               then char_of (of_char c + (32::nat)) else c) s"

definition endsWith :: "string \<Rightarrow> string \<Rightarrow> bool" where
  "endsWith s suf = (length suf \<le> length s \<and> drop (length s - length suf) s = suf)"

definition isYaml :: "DocState \<Rightarrow> bool" where
  "isYaml doc =
     (languageId doc = ''yaml''
      \<or> endsWith (toLowerCase (fsPath doc)) ''.yml''
      \<or> endsWith (toLowerCase (fsPath doc)) ''.yaml'')"

text \<open>
  What one invocation of the command meets: the document of the active editor if there
  is one, the settings, and what the operating system will answer to a listen.
\<close>

record OpenRequest =
  activeTextEditor :: "string option"
  configuration :: Configuration
  listenOutcome :: ListenOutcome

text \<open>Lines 56 to 62: the server is started when the remote address is not https.\<close>

definition startUnlessRemote ::
  "Host \<Rightarrow> string \<Rightarrow> ListenOutcome \<Rightarrow> World
     \<Rightarrow> (Error + nat option \<times> string option) \<times> World" where
  "startUnlessRemote host remoteUrl outcome w =
     (if \<not> isHttpsUrl host (Some remoteUrl) then
        (case startDemoServer outcome w of
           (Inl e, w') \<Rightarrow> (Inl e, w')
         | (Inr started, w') \<Rightarrow> (Inr (Some (fst started), Some (snd started)), w'))
      else (Inr (None, None), w))"

text \<open>
  Lines 64 to 93, once the content is resolved: the page is set, the debounced sender is
  made and called once, the change listener and the dispose handler are registered, and
  the entry is stored.
\<close>

definition installSession ::
  "nat \<Rightarrow> string \<Rightarrow> ContentSource \<times> AppSrc \<Rightarrow> int \<Rightarrow> nat option \<Rightarrow> World \<Rightarrow> World" where
  "installSession panel k content debounceMs server w =
     (let w1 = w\<lparr>panels := (panels w)(panel := Some \<lparr>html = Some content, disposed = False\<rparr>),
                  sessions := (sessions w)(panel :=
                    Some \<lparr>key = k, timer = None, delayMs = nat debounceMs,
                          demoServer = server, subscribed = False\<rparr>)\<rparr>;
          w2 = sendUpdate panel w1;
          w3 = w2\<lparr>sessions := (\<lambda>q. if q = panel
                                      then map_option (\<lambda>s. s\<lparr>subscribed := True\<rparr>) (sessions w2 q)
                                      else sessions w2 q)\<rparr>
      in w3\<lparr>previewByDoc := (previewByDoc w3)(k := Some panel)\<rparr>)"

text \<open>
  The command. The result is the error the command's promise rejects with, if any, and
  the state it leaves. \<^verbatim>\<open>showTextDocument\<close> changes nothing that is modelled.
\<close>

definition openPreview :: "Host \<Rightarrow> OpenRequest \<Rightarrow> World \<Rightarrow> Error option \<times> World" where
  "openPreview host req w =
     (case activeTextEditor req of
        None \<Rightarrow> (None, w\<lparr>notices := notices w @ [''No active editor.'']\<rparr>)
      | Some k \<Rightarrow>
          if \<not> isYaml (documents w k) then
            (None, w\<lparr>notices := notices w @
                      [''Open a YAML (.yml/.yaml) file to use this preview.'']\<rparr>)
          else
            (case previewByDoc w k of
               Some existing \<Rightarrow> (None, w\<lparr>revealed := revealed w @ [existing]\<rparr>)
             | None \<Rightarrow>
                 (let panel = nextPanel w;
                      w1 = w\<lparr>panels := (panels w)(panel := Some \<lparr>html = None, disposed = False\<rparr>),
                              nextPanel := Suc panel\<rparr>;
                      remoteUrl = remoteUrl_of (configuration req);
                      debounceMs = debounceMs_of (configuration req);
                      allowHttp = allowHttp_of (configuration req)
                  in case startUnlessRemote host remoteUrl (listenOutcome req) w1 of
                       (Inl e, w2) \<Rightarrow> (Some e, w2)
                     | (Inr started, w2) \<Rightarrow>
                         (case resolveAppSrc host remoteUrl (snd started) allowHttp of
                            Inl e \<Rightarrow> (Some e, w2)
                          | Inr content \<Rightarrow>
                              (None, installSession panel k content debounceMs
                                       (fst started) w2)))))"

subsection \<open>The command in its three parts\<close>

text \<open>
  \<open>openPreview\<close> above is one invocation with nothing happening while it awaits. The
  editor can deliver other events at the two awaits, so the command is also given in the
  parts between them. \<open>invokeOpen\<close> is lines 11 to 36: the checks, and the call of
  \<^verbatim>\<open>showTextDocument\<close>.
\<close>

definition invokeOpen :: "string option \<Rightarrow> World \<Rightarrow> World" where
  "invokeOpen editor w =
     (case editor of
        None \<Rightarrow> w\<lparr>notices := notices w @ [''No active editor.'']\<rparr>
      | Some k \<Rightarrow>
          if \<not> isYaml (documents w k) then
            w\<lparr>notices := notices w @ [''Open a YAML (.yml/.yaml) file to use this preview.'']\<rparr>
          else
            (case previewByDoc w k of
               Some existing \<Rightarrow> w\<lparr>revealed := revealed w @ [existing]\<rparr>
             | None \<Rightarrow> w\<lparr>commands := commands w @ [AwaitShow k]\<rparr>))"

text \<open>
  Lines 64 to 93. Line 64 reads \<^verbatim>\<open>panel.webview\<close>, which throws when the panel was
  disposed in the meantime.
\<close>

definition finishOpen ::
  "Host \<Rightarrow> nat \<Rightarrow> string \<Rightarrow> string \<Rightarrow> string option \<Rightarrow> int \<Rightarrow> bool \<Rightarrow> nat option \<Rightarrow> World
     \<Rightarrow> Error option \<times> World" where
  "finishOpen host panel k remoteUrl demoUrl debounceMs allowHttp server w =
     (if panelDisposed w panel then (Some WebviewDisposed, w)
      else
        (case resolveAppSrc host remoteUrl demoUrl allowHttp of
           Inl e \<Rightarrow> (Some e, w)
         | Inr content \<Rightarrow> (None, installSession panel k content debounceMs server w)))"

text \<open>
  \<^verbatim>\<open>showTextDocument\<close> has resolved for command \<open>c\<close>: lines 38 to 59. The panel is
  created and the settings are read. When the remote address is not https the server is
  created and the command awaits the listen; otherwise it runs to its end.
\<close>

definition resumeShown :: "Host \<Rightarrow> nat \<Rightarrow> Configuration \<Rightarrow> World \<Rightarrow> Error option \<times> World" where
  "resumeShown host c cfg w =
     (if c < length (commands w) then
        (case commands w ! c of
           AwaitShow k \<Rightarrow>
             (let panel = nextPanel w;
                  w1 = w\<lparr>panels := (panels w)(panel := Some \<lparr>html = None, disposed = False\<rparr>),
                          nextPanel := Suc panel\<rparr>;
                  remoteUrl = remoteUrl_of cfg;
                  debounceMs = debounceMs_of cfg;
                  allowHttp = allowHttp_of cfg
              in if \<not> isHttpsUrl host (Some remoteUrl) then
                   (None,
                    w1\<lparr>servers := servers w1 @ [NeverBound],
                       commands := (commands w1)
                         [c := AwaitListen k panel remoteUrl debounceMs allowHttp
                                 (length (servers w1))]\<rparr>)
                 else
                   finishOpen host panel k remoteUrl None debounceMs allowHttp None
                     (w1\<lparr>commands := (commands w1)[c := Settled]\<rparr>))
         | _ \<Rightarrow> (None, w))
      else (None, w))"

text \<open>
  The listen of command \<open>c\<close> has settled: the rest of \<^verbatim>\<open>startDemoServer\<close> (lines 249 to
  257) and, when it returns, lines 60 to 93.
\<close>

definition resumeListened :: "Host \<Rightarrow> nat \<Rightarrow> ListenOutcome \<Rightarrow> World \<Rightarrow> Error option \<times> World" where
  "resumeListened host c outcome w =
     (if c < length (commands w) then
        (case commands w ! c of
           AwaitListen k panel remoteUrl debounceMs allowHttp server \<Rightarrow>
             (let w1 = w\<lparr>servers := (servers w)[server := serverStateOf outcome],
                          commands := (commands w)[c := Settled]\<rparr>
              in case outcome of
                   AddressInfo port \<Rightarrow>
                     finishOpen host panel k remoteUrl (Some (demoServerUrl port)) debounceMs
                       allowHttp (Some server) w1
                 | ListenFails \<Rightarrow> (Some ListenError, w1)
                 | _ \<Rightarrow> (Some DemoServerFailedToBind, w1))
         | _ \<Rightarrow> (None, w))
      else (None, w))"

subsection \<open>Runs of the extension\<close>

text \<open>
  What happens to the extension: the command is invoked with or without an active
  editor, one of its awaits settles, the editor changes a document, a panel is closed,
  time passes. Events arrive in any order, so other events, further invocations among
  them, can come between the parts of one command.
\<close>

datatype Event =
    Invoke "string option"
  | Shown nat Configuration
  | Listened nat ListenOutcome
  | Change string string int
  | Dispose nat
  | Advance nat

fun step :: "Host \<Rightarrow> World \<Rightarrow> Event \<Rightarrow> World" where
  "step host w (Invoke editor) = invokeOpen editor w"
| "step host w (Shown c cfg) = snd (resumeShown host c cfg w)"
| "step host w (Listened c outcome) = snd (resumeListened host c outcome w)"
| "step host w (Change u txt ver) = changeTextDocument u txt ver w"
| "step host w (Dispose p) = disposePanel p w"
| "step host w (Advance t) = advance t w"

definition run :: "Host \<Rightarrow> World \<Rightarrow> Event list \<Rightarrow> World" where
  "run host w es = foldl (step host) w es"

subsection \<open>States the extension reaches, and what is observed of them\<close>

text \<open>
  The panel an invocation holds while it awaits the listen.
\<close>

definition awaiting :: "World \<Rightarrow> nat \<Rightarrow> nat option" where
  "awaiting w c =
     (if c < length (commands w) then
        (case commands w ! c of
           AwaitListen k panel remoteUrl debounceMs allowHttp server \<Rightarrow> Some panel
         | _ \<Rightarrow> None)
      else None)"

text \<open>
  What holds of every state a run reaches (\<open>wellFormed_run\<close> below). Every pending
  timer is the current timer of the session of its panel and carries that session's
  document. A session's timer handle has been given out, and no other session has it.
  Every session has a panel, which is disposed exactly when the session's subscription is
  not active. Every panel has an id that was given out. A panel held by an invocation
  that awaits the listen has an id that was given out and no session yet, and no other
  invocation holds it.
\<close>

definition wellFormed :: "World \<Rightarrow> bool" where
  "wellFormed w \<longleftrightarrow>
     (\<forall>tm \<in> set (timeouts w). \<exists>s. sessions w (cbPanel tm) = Some s
                                    \<and> timer s = Some (handle tm) \<and> key s = cbDoc tm)
     \<and> (\<forall>p s h. sessions w p = Some s \<and> timer s = Some h \<longrightarrow>
            h < nextHandle w
            \<and> (\<forall>q s'. sessions w q = Some s' \<and> timer s' = Some h \<longrightarrow> q = p))
     \<and> (\<forall>p s. sessions w p = Some s \<longrightarrow>
            (\<exists>pn. panels w p = Some pn \<and> (disposed pn \<longleftrightarrow> \<not> subscribed s)))
     \<and> (\<forall>p pn. panels w p = Some pn \<longrightarrow> p < nextPanel w)
     \<and> (\<forall>c panel. awaiting w c = Some panel \<longrightarrow>
            panel < nextPanel w \<and> sessions w panel = None
            \<and> (\<forall>c'. awaiting w c' = Some panel \<longrightarrow> c' = c))"

text \<open>The messages posted to a panel, in order, and the timers pending for it.\<close>

definition postsTo :: "nat \<Rightarrow> World \<Rightarrow> Payload list" where
  "postsTo p w = map snd (filter (\<lambda>e. fst e = p) (posted w))"

definition pendingFor :: "nat \<Rightarrow> World \<Rightarrow> Timeout list" where
  "pendingFor p w = filter (\<lambda>tm. cbPanel tm = p) (timeouts w)"

text \<open>
  A session is live for a document while its panel is not disposed; \<open>liveSessions\<close>
  lists the panels of the live sessions of a document.
\<close>

definition liveSession :: "World \<Rightarrow> string \<Rightarrow> nat \<Rightarrow> bool" where
  "liveSession w k p =
     (case sessions w p of
        None \<Rightarrow> False
      | Some s \<Rightarrow> key s = k \<and> (case panels w p of None \<Rightarrow> False | Some pn \<Rightarrow> \<not> disposed pn))"

definition liveSessions :: "World \<Rightarrow> string \<Rightarrow> nat list" where
  "liveSessions w k = filter (liveSession w k) [0..<nextPanel w]"







subsection \<open>A sample platform and sample inputs\<close>

text \<open>
  The statements below hold for every platform; where one is evaluated at a concrete
  input, this platform is used. Its parser reads addresses of the shape
  \<^verbatim>\<open>scheme://authority/path\<close> and rejects everything else.
\<close>

definition sampleURL :: "string \<Rightarrow> URL option" where
  "sampleURL s =
     (let scheme = takeWhile (\<lambda>c. c \<noteq> CHR '':'') s;
          rest = dropWhile (\<lambda>c. c \<noteq> CHR '':'') s;
          authority = takeWhile (\<lambda>c. c \<noteq> CHR ''/'') (drop 3 rest)
      in if scheme \<noteq> [] \<and> take 3 rest = ''://'' \<and> authority \<noteq> []
         then Some \<lparr>protocol = scheme @ '':'', origin = scheme @ ''://'' @ authority\<rparr>
         else None)"

definition sampleHost :: Host where
  "sampleHost =
     \<lparr>newURL = sampleURL, cspSource = ''https://*.vscode-cdn.net'',
      bundledDemoUri = ''https://file.vscode-cdn.net/ext/src/demo/index.html'',
      demoFsPath = ''/ext/src/demo/index.html''\<rparr>"

definition sampleDocs :: "string \<Rightarrow> DocState" where
  "sampleDocs u =
     \<lparr>fsPath = ''/w/a.yaml'', fileName = ''/w/a.yaml'', languageId = ''yaml'',
      getText = ''a: 1'', version = 1\<rparr>"

definition sampleKey :: string where
  "sampleKey = ''file:///w/a.yaml''"

definition sampleOpen :: "string \<Rightarrow> bool \<Rightarrow> ListenOutcome \<Rightarrow> OpenRequest" where
  "sampleOpen remote allow outcome =
     \<lparr>activeTextEditor = Some sampleKey,
      configuration = \<lparr>cfg_remoteUrl = Some remote, cfg_debounceMs = None,
                        cfg_allowHttp = Some allow\<rparr>,
      listenOutcome = outcome\<rparr>"

text \<open>
  The sample settings with a given delay. \<open>sampleSession\<close> is the state after the
  sample document is opened with them, the listen giving port 54321. \<open>sampleOverlap\<close>
  is the state after the command is invoked twice for the sample document, the second
  time before the first invocation has passed its first await.
\<close>

definition sampleConfig :: "int option \<Rightarrow> Configuration" where
  "sampleConfig delay = \<lparr>cfg_remoteUrl = Some [], cfg_debounceMs = delay, cfg_allowHttp = Some True\<rparr>"

definition sampleSession :: "int option \<Rightarrow> World" where
  "sampleSession delay =
     run sampleHost (activate sampleDocs)
       [Invoke (Some sampleKey), Shown 0 (sampleConfig delay), Listened 0 (AddressInfo 54321)]"

definition sampleOverlap :: World where
  "sampleOverlap =
     run sampleHost (activate sampleDocs)
       [Invoke (Some sampleKey), Invoke (Some sampleKey),
        Shown 0 (sampleConfig None), Listened 0 (AddressInfo 54321),
        Shown 1 (sampleConfig None), Listened 1 (AddressInfo 54322)]"

section \<open>Lemmas about the state\<close>

subsection \<open>The command run without interruption\<close>

lemma snd_startDemoServer:
  "snd (startDemoServer outcome w) = w\<lparr>servers := servers w @ [serverStateOf outcome]\<rparr>"
  by (cases outcome) (simp_all add: startDemoServer_def serverStateOf_def)

lemma snd_startUnlessRemote:
  "snd (startUnlessRemote host remoteUrl outcome w) =
     (if isHttpsUrl host (Some remoteUrl) then w
      else w\<lparr>servers := servers w @ [serverStateOf outcome]\<rparr>)"
  using snd_startDemoServer [of outcome w]
  by (auto simp: startUnlessRemote_def split: prod.splits sum.splits)

lemma installSession_fields:
  "timeouts (installSession panel k content d server w) =
     timeouts w @ [\<lparr>handle = nextHandle w, due = now w + timerDelay (nat d), cbPanel = panel,
                    cbDoc = k\<rparr>]"
  "sessions (installSession panel k content d server w) =
     (sessions w)(panel := Some \<lparr>key = k, timer = Some (nextHandle w), delayMs = nat d,
                                 demoServer = server, subscribed = True\<rparr>)"
  "previewByDoc (installSession panel k content d server w) = (previewByDoc w)(k := Some panel)"
  "panels (installSession panel k content d server w) =
     (panels w)(panel := Some \<lparr>html = Some content, disposed = False\<rparr>)"
  "nextPanel (installSession panel k content d server w) = nextPanel w"
  "posted (installSession panel k content d server w) = posted w"
  "servers (installSession panel k content d server w) = servers w"
  "documents (installSession panel k content d server w) = documents w"
  "now (installSession panel k content d server w) = now w"
  "nextHandle (installSession panel k content d server w) = Suc (nextHandle w)"
  "notices (installSession panel k content d server w) = notices w"
  "revealed (installSession panel k content d server w) = revealed w"
  "uncaught (installSession panel k content d server w) = uncaught w"
  "commands (installSession panel k content d server w) = commands w"
  by (auto simp: installSession_def sendUpdate_def setTimeout_def Let_def fun_eq_iff)

lemma openPreview_existing:
  assumes "activeTextEditor req = Some d" "isYaml (documents w d)" "previewByDoc w d = Some p"
  shows "openPreview host req w = (None, w\<lparr>revealed := revealed w @ [p]\<rparr>)"
  using assms by (simp add: openPreview_def)

lemma openPreview_fresh:
  assumes "activeTextEditor req = Some k" "isYaml (documents w k)" "previewByDoc w k = None"
  shows "openPreview host req w =
     (let st = startUnlessRemote host (remoteUrl_of (configuration req)) (listenOutcome req)
                 (w\<lparr>panels := (panels w)(nextPanel w := Some \<lparr>html = None, disposed = False\<rparr>),
                    nextPanel := Suc (nextPanel w)\<rparr>)
      in case fst st of
           Inl e \<Rightarrow> (Some e, snd st)
         | Inr started \<Rightarrow>
             (case resolveAppSrc host (remoteUrl_of (configuration req)) (snd started)
                     (allowHttp_of (configuration req)) of
                Inl e \<Rightarrow> (Some e, snd st)
              | Inr content \<Rightarrow>
                  (None, installSession (nextPanel w) k content
                           (debounceMs_of (configuration req)) (fst started) (snd st))))"
  using assms by (simp add: openPreview_def Let_def case_prod_beta)

lemma sample_editor:
  "activeTextEditor (sampleOpen remote allow outcome) = Some sampleKey"
  "isYaml (documents (activate sampleDocs) sampleKey)"
  "previewByDoc (activate sampleDocs) sampleKey = None"
  "\<not> isHttpsUrl sampleHost (Some [])"
  "\<not> isHttpsUrl sampleHost (Some ''http://insecure.example'')"
  by (simp_all add: sampleOpen_def sampleKey_def isYaml_def activate_def sampleDocs_def
      isHttpsUrl_def sampleHost_def sampleURL_def)

subsection \<open>The parts of well-formedness\<close>

lemma wellFormed_timeout:
  "wellFormed w \<Longrightarrow> tm \<in> set (timeouts w) \<Longrightarrow>
     \<exists>s. sessions w (cbPanel tm) = Some s \<and> timer s = Some (handle tm) \<and> key s = cbDoc tm"
  unfolding wellFormed_def by blast

lemma wellFormed_handle:
  "wellFormed w \<Longrightarrow> sessions w p = Some s \<Longrightarrow> timer s = Some h \<Longrightarrow>
     h < nextHandle w \<and> (\<forall>q s'. sessions w q = Some s' \<and> timer s' = Some h \<longrightarrow> q = p)"
  unfolding wellFormed_def by blast

lemma wellFormed_session:
  "wellFormed w \<Longrightarrow> sessions w p = Some s \<Longrightarrow>
     \<exists>pn. panels w p = Some pn \<and> (disposed pn \<longleftrightarrow> \<not> subscribed s)"
  unfolding wellFormed_def by blast

lemma wellFormed_panel:
  "wellFormed w \<Longrightarrow> panels w p = Some pn \<Longrightarrow> p < nextPanel w"
  unfolding wellFormed_def by blast

lemma wellFormed_awaiting:
  "wellFormed w \<Longrightarrow> awaiting w c = Some panel \<Longrightarrow>
     panel < nextPanel w \<and> sessions w panel = None
     \<and> (\<forall>c'. awaiting w c' = Some panel \<longrightarrow> c' = c)"
  unfolding wellFormed_def by blast

lemma wellFormedI:
  assumes "\<And>tm. tm \<in> set (timeouts w) \<Longrightarrow>
             \<exists>s. sessions w (cbPanel tm) = Some s \<and> timer s = Some (handle tm) \<and> key s = cbDoc tm"
    and "\<And>p s h. sessions w p = Some s \<Longrightarrow> timer s = Some h \<Longrightarrow>
             h < nextHandle w \<and> (\<forall>q s'. sessions w q = Some s' \<and> timer s' = Some h \<longrightarrow> q = p)"
    and "\<And>p s. sessions w p = Some s \<Longrightarrow>
             \<exists>pn. panels w p = Some pn \<and> (disposed pn \<longleftrightarrow> \<not> subscribed s)"
    and "\<And>p pn. panels w p = Some pn \<Longrightarrow> p < nextPanel w"
    and "\<And>c panel. awaiting w c = Some panel \<Longrightarrow>
             panel < nextPanel w \<and> sessions w panel = None
             \<and> (\<forall>c'. awaiting w c' = Some panel \<longrightarrow> c' = c)"
  shows "wellFormed w"
  unfolding wellFormed_def using assms by blast

text \<open>A state with no more timers that agrees in the other fields the invariant reads.\<close>

lemma wellFormed_cong:
  assumes wf: "wellFormed w"
    and "set (timeouts w') \<subseteq> set (timeouts w)" "sessions w' = sessions w"
    and "nextHandle w' = nextHandle w"
    and "panels w' = panels w" "nextPanel w' = nextPanel w" "awaiting w' = awaiting w"
  shows "wellFormed w'"
proof -
  note a = assms(7)
  show ?thesis
  proof (rule wellFormedI)
    fix tm assume "tm \<in> set (timeouts w')"
    with assms(2) have "tm \<in> set (timeouts w)" by blast
    from wellFormed_timeout [OF wf this]
    show "\<exists>s. sessions w' (cbPanel tm) = Some s \<and> timer s = Some (handle tm) \<and> key s = cbDoc tm"
      by (simp add: assms)
  next
    fix p s h assume "sessions w' p = Some s" "timer s = Some h"
    with wellFormed_handle [OF wf, of p s h]
    show "h < nextHandle w' \<and> (\<forall>q s'. sessions w' q = Some s' \<and> timer s' = Some h \<longrightarrow> q = p)"
      by (simp add: assms)
  next
    fix p s assume "sessions w' p = Some s"
    with wellFormed_session [OF wf, of p s]
    show "\<exists>pn. panels w' p = Some pn \<and> (disposed pn \<longleftrightarrow> \<not> subscribed s)"
      by (simp add: assms)
  next
    fix p pn assume "panels w' p = Some pn"
    with wellFormed_panel [OF wf, of p pn] show "p < nextPanel w'"
      by (simp add: assms)
  next
    fix c panel assume "awaiting w' c = Some panel"
    with wellFormed_awaiting [OF wf, of c panel]
    show "panel < nextPanel w' \<and> sessions w' panel = None
             \<and> (\<forall>c'. awaiting w' c' = Some panel \<longrightarrow> c' = c)"
      by (simp add: assms a)
  qed
qed

lemma wellFormed_activate: "wellFormed (activate docs)"
  by (simp add: wellFormed_def activate_def awaiting_def)

subsection \<open>Time passing\<close>

lemma panelDisposed_timerCallback [simp]:
  "panelDisposed (timerCallback tm w) p = panelDisposed w p"
  by (simp add: timerCallback_def panelDisposed_def)

lemma fold_timerCallback:
  "fold timerCallback tms w =
     w\<lparr>posted := posted w @
          map (\<lambda>tm. (cbPanel tm, snapshot (cbDoc tm) (documents w (cbDoc tm))))
            (filter (\<lambda>tm. \<not> panelDisposed w (cbPanel tm)) tms),
       uncaught := uncaught w @
          replicate (length (filter (\<lambda>tm. panelDisposed w (cbPanel tm)) tms)) WebviewDisposed\<rparr>"
proof (induction tms arbitrary: w)
  case Nil
  then show ?case by simp
next
  case (Cons tm tms)
  have d: "panelDisposed (timerCallback tm w) = panelDisposed w"
    by (simp add: fun_eq_iff)
  show ?case
    by (simp add: Cons.IH d) (simp add: timerCallback_def replicate_append_same)
qed

lemma advance_fields [simp]:
  "sessions (advance t w) = sessions w"
  "previewByDoc (advance t w) = previewByDoc w"
  "panels (advance t w) = panels w"
  "nextPanel (advance t w) = nextPanel w"
  "documents (advance t w) = documents w"
  "servers (advance t w) = servers w"
  "commands (advance t w) = commands w"
  "nextHandle (advance t w) = nextHandle w"
  "now (advance t w) = max (now w) t"
  "timeouts (advance t w) = filter (\<lambda>tm. \<not> due tm \<le> t) (timeouts w)"
  by (simp_all add: advance_def fold_timerCallback)

lemma panelDisposed_advance [simp]: "panelDisposed (advance t w) p = panelDisposed w p"
  by (simp add: panelDisposed_def)

lemma posted_advance:
  "posted (advance t w) = posted w @
     map (\<lambda>tm. (cbPanel tm, snapshot (cbDoc tm) (documents w (cbDoc tm))))
       (filter (\<lambda>tm. \<not> panelDisposed w (cbPanel tm))
          (sort_key due (filter (\<lambda>tm. due tm \<le> t) (timeouts w))))"
  by (simp add: advance_def fold_timerCallback)

lemma postsTo_advance:
  "postsTo p (advance t w) = postsTo p w @
     (if panelDisposed w p then []
      else map (\<lambda>tm. snapshot (cbDoc tm) (documents w (cbDoc tm)))
             (sort_key due (filter (\<lambda>tm. due tm \<le> t) (pendingFor p w))))"
proof -
  let ?run = "sort_key due (filter (\<lambda>tm. due tm \<le> t) (timeouts w))"
  have split: "postsTo p (advance t w) = postsTo p w @
      map (\<lambda>tm. snapshot (cbDoc tm) (documents w (cbDoc tm)))
        (filter (\<lambda>tm. cbPanel tm = p) (filter (\<lambda>tm. \<not> panelDisposed w (cbPanel tm)) ?run))"
    by (simp add: postsTo_def posted_advance filter_map o_def)
  show ?thesis
  proof (cases "panelDisposed w p")
    case True
    then have "filter (\<lambda>tm. cbPanel tm = p) (filter (\<lambda>tm. \<not> panelDisposed w (cbPanel tm)) ?run) = []"
      by (auto simp: filter_empty_conv)
    with True show ?thesis by (simp add: split)
  next
    case False
    then have "filter (\<lambda>tm. cbPanel tm = p) (filter (\<lambda>tm. \<not> panelDisposed w (cbPanel tm)) ?run)
        = filter (\<lambda>tm. cbPanel tm = p) ?run"
      by (auto intro: filter_cong)
    also have "\<dots> = sort_key due (filter (\<lambda>tm. cbPanel tm = p) (filter (\<lambda>tm. due tm \<le> t) (timeouts w)))"
      by (simp only: filter_sort)
    also have "filter (\<lambda>tm. cbPanel tm = p) (filter (\<lambda>tm. due tm \<le> t) (timeouts w))
        = filter (\<lambda>tm. due tm \<le> t) (pendingFor p w)"
      by (auto simp: pendingFor_def intro: filter_cong)
    finally show ?thesis
      using False by (simp add: split)
  qed
qed

lemma pendingFor_advance:
  "pendingFor p (advance t w) = filter (\<lambda>tm. \<not> due tm \<le> t) (pendingFor p w)"
  by (simp add: pendingFor_def) (metis (mono_tags, lifting) filter_cong conj_commute)

lemma awaiting_advance [simp]: "awaiting (advance t w) = awaiting w"
  by (simp add: fun_eq_iff awaiting_def)

lemma wellFormed_advance: "wellFormed w \<Longrightarrow> wellFormed (advance t w)"
  by (erule wellFormed_cong) auto

subsection \<open>A call of the debounced sender\<close>

lemma sendUpdate_fields [simp]:
  "previewByDoc (sendUpdate p w) = previewByDoc w"
  "panels (sendUpdate p w) = panels w"
  "nextPanel (sendUpdate p w) = nextPanel w"
  "documents (sendUpdate p w) = documents w"
  "servers (sendUpdate p w) = servers w"
  "posted (sendUpdate p w) = posted w"
  "uncaught (sendUpdate p w) = uncaught w"
  "commands (sendUpdate p w) = commands w"
  "now (sendUpdate p w) = now w"
  by (simp_all add: sendUpdate_def setTimeout_def clearTimeout_def Let_def
      split: option.splits)

lemma sessions_sendUpdate:
  "sessions w p = Some s \<Longrightarrow>
     sessions (sendUpdate p w) = (sessions w)(p := Some (s\<lparr>timer := Some (nextHandle w)\<rparr>))"
  by (simp add: sendUpdate_def setTimeout_def clearTimeout_def Let_def split: option.splits)

lemma nextHandle_sendUpdate:
  "sessions w p = Some s \<Longrightarrow> nextHandle (sendUpdate p w) = Suc (nextHandle w)"
  by (simp add: sendUpdate_def setTimeout_def clearTimeout_def Let_def split: option.splits)

lemma timeouts_sendUpdate:
  "sessions w p = Some s \<Longrightarrow>
     timeouts (sendUpdate p w) =
       filter (\<lambda>tm. Some (handle tm) \<noteq> timer s) (timeouts w) @
         [\<lparr>handle = nextHandle w, due = now w + timerDelay (delayMs s), cbPanel = p,
           cbDoc = key s\<rparr>]"
  by (auto simp: sendUpdate_def setTimeout_def clearTimeout_def Let_def split: option.splits)

lemma postsTo_sendUpdate [simp]: "postsTo p (sendUpdate q w) = postsTo p w"
  by (simp add: postsTo_def)

lemma panelDisposed_sendUpdate [simp]: "panelDisposed (sendUpdate q w) p = panelDisposed w p"
  by (simp add: panelDisposed_def)

lemma awaiting_sendUpdate [simp]: "awaiting (sendUpdate q w) = awaiting w"
  by (simp add: fun_eq_iff awaiting_def)



lemma wellFormed_sendUpdate:
  assumes wf: "wellFormed w" and s: "sessions w p = Some s"
  shows "wellFormed (sendUpdate p w)"
proof (rule wellFormedI)
  fix tm assume "tm \<in> set (timeouts (sendUpdate p w))"
  then consider "tm \<in> set (timeouts w)" "Some (handle tm) \<noteq> timer s"
    | "tm = \<lparr>handle = nextHandle w, due = now w + timerDelay (delayMs s), cbPanel = p,
             cbDoc = key s\<rparr>"
    by (auto simp: timeouts_sendUpdate [OF s])
  then show "\<exists>s'. sessions (sendUpdate p w) (cbPanel tm) = Some s'
                 \<and> timer s' = Some (handle tm) \<and> key s' = cbDoc tm"
  proof cases
    case 1
    with wellFormed_timeout [OF wf 1(1)] s show ?thesis
      by (auto simp: sessions_sendUpdate [OF s])
  next
    case 2
    then show ?thesis by (simp add: sessions_sendUpdate [OF s])
  qed
next
  fix q sq h assume a: "sessions (sendUpdate p w) q = Some sq" "timer sq = Some h"
  show "h < nextHandle (sendUpdate p w)
        \<and> (\<forall>q' s'. sessions (sendUpdate p w) q' = Some s' \<and> timer s' = Some h \<longrightarrow> q' = q)"
  proof (cases "q = p")
    case True
    with a have h: "h = nextHandle w"
      by (auto simp: sessions_sendUpdate [OF s])
    have "q' = p" if "sessions (sendUpdate p w) q' = Some s'" "timer s' = Some h" for q' s'
    proof (rule ccontr)
      assume "q' \<noteq> p"
      with that have "sessions w q' = Some s'" by (simp add: sessions_sendUpdate [OF s])
      from wellFormed_handle [OF wf this that(2)] h show False by simp
    qed
    with True h show ?thesis
      by (auto simp: nextHandle_sendUpdate [OF s])
  next
    case False
    with a have old: "sessions w q = Some sq" by (simp add: sessions_sendUpdate [OF s])
    note o = wellFormed_handle [OF wf old a(2)]
    have "q' = q" if "sessions (sendUpdate p w) q' = Some s'" "timer s' = Some h" for q' s'
    proof (cases "q' = p")
      case True
      with that have "h = nextHandle w" by (auto simp: sessions_sendUpdate [OF s])
      with o show ?thesis by simp
    next
      case False
      with that have "sessions w q' = Some s'" by (simp add: sessions_sendUpdate [OF s])
      with o that(2) show ?thesis by blast
    qed
    with o show ?thesis
      by (auto simp: nextHandle_sendUpdate [OF s])
  qed
next
  fix q sq assume "sessions (sendUpdate p w) q = Some sq"
  then show "\<exists>pn. panels (sendUpdate p w) q = Some pn \<and> (disposed pn \<longleftrightarrow> \<not> subscribed sq)"
    using wellFormed_session [OF wf, of q] s
    by (auto simp: sessions_sendUpdate [OF s] split: if_splits)
next
  fix q pn assume "panels (sendUpdate p w) q = Some pn"
  then show "q < nextPanel (sendUpdate p w)"
    using wellFormed_panel [OF wf, of q pn] by simp
next
  fix c panel assume "awaiting (sendUpdate p w) c = Some panel"
  then show "panel < nextPanel (sendUpdate p w) \<and> sessions (sendUpdate p w) panel = None
             \<and> (\<forall>c'. awaiting (sendUpdate p w) c' = Some panel \<longrightarrow> c' = c)"
    using wellFormed_awaiting [OF wf, of c panel] s
    by (auto simp: sessions_sendUpdate [OF s])
qed

subsection \<open>Change notifications\<close>

lemma fireDidChange_fold:
  "fireDidChange u w = fold (notifyListener u) [0..<nextPanel w] w"
  unfolding fireDidChange_def notifyListener_def ..

lemma notifyListener_cases:
  "notifyListener u q v =
     (case sessions v q of
        None \<Rightarrow> v
      | Some s \<Rightarrow> if subscribed s \<and> key s = u then sendUpdate q v else v)"
  by (auto simp: notifyListener_def changeListener_def split: option.splits)

lemma notifyListener_fields [simp]:
  "previewByDoc (notifyListener u q w) = previewByDoc w"
  "panels (notifyListener u q w) = panels w"
  "nextPanel (notifyListener u q w) = nextPanel w"
  "documents (notifyListener u q w) = documents w"
  "servers (notifyListener u q w) = servers w"
  "posted (notifyListener u q w) = posted w"
  "uncaught (notifyListener u q w) = uncaught w"
  "commands (notifyListener u q w) = commands w"
  "now (notifyListener u q w) = now w"
  by (simp_all add: notifyListener_cases split: option.splits)

lemma wellFormed_notifyListener:
  "wellFormed w \<Longrightarrow> wellFormed (notifyListener u q w)"
  by (auto simp: notifyListener_cases wellFormed_sendUpdate split: option.splits)


lemma fold_notifyListener_fields [simp]:
  "previewByDoc (fold (notifyListener u) qs w) = previewByDoc w"
  "panels (fold (notifyListener u) qs w) = panels w"
  "nextPanel (fold (notifyListener u) qs w) = nextPanel w"
  "documents (fold (notifyListener u) qs w) = documents w"
  "servers (fold (notifyListener u) qs w) = servers w"
  "posted (fold (notifyListener u) qs w) = posted w"
  "uncaught (fold (notifyListener u) qs w) = uncaught w"
  "commands (fold (notifyListener u) qs w) = commands w"
  "now (fold (notifyListener u) qs w) = now w"
  by (induction qs arbitrary: w; simp)+

lemma wellFormed_fold_notifyListener:
  "wellFormed w \<Longrightarrow> wellFormed (fold (notifyListener u) qs w)"
  by (induction qs arbitrary: w) (simp_all add: wellFormed_notifyListener)



lemma wellFormed_changeTextDocument:
  assumes wf: "wellFormed w"
  shows "wellFormed (changeTextDocument u newText newVersion w)"
proof -
  have "wellFormed (w\<lparr>documents := d\<rparr>)" for d
    using wf by (rule wellFormed_cong) (simp_all add: fun_eq_iff awaiting_def)
  then show ?thesis
    unfolding changeTextDocument_def fireDidChange_fold
    by (intro wellFormed_fold_notifyListener)
qed

subsection \<open>Notifications while a timer is pending\<close>










subsection \<open>Disposal, the parts of the command, and runs\<close>

lemma wellFormed_disposePanel:
  assumes wf: "wellFormed w"
  shows "wellFormed (disposePanel p w)"
proof (cases "\<exists>pn. panels w p = Some pn \<and> \<not> disposed pn")
  case False
  then have "disposePanel p w = w"
    by (auto simp: disposePanel_def split: option.splits)
  with wf show ?thesis by simp
next
  case True
  then obtain pn where pn: "panels w p = Some pn" "\<not> disposed pn" by blast
  let ?w = "disposePanel p w"
  have f: "timeouts ?w = timeouts w" "nextHandle ?w = nextHandle w" "nextPanel ?w = nextPanel w"
    "commands ?w = commands w"
    "panels ?w = (panels w)(p := Some (pn\<lparr>disposed := True\<rparr>))"
    "sessions ?w = (case sessions w p of None \<Rightarrow> sessions w
                    | Some s \<Rightarrow> (sessions w)(p := Some (s\<lparr>subscribed := False\<rparr>)))"
    using pn by (simp_all add: disposePanel_def onDidDispose_def split: option.splits)
  have a: "awaiting ?w = awaiting w"
    by (simp add: fun_eq_iff awaiting_def f)
  show ?thesis
  proof (rule wellFormedI)
    fix tm assume "tm \<in> set (timeouts ?w)"
    with wellFormed_timeout [OF wf, of tm]
    show "\<exists>s. sessions ?w (cbPanel tm) = Some s \<and> timer s = Some (handle tm) \<and> key s = cbDoc tm"
      by (auto simp: f split: option.splits)
  next
    fix q s h assume q: "sessions ?w q = Some s" "timer s = Some h"
    then obtain s0 where s0: "sessions w q = Some s0" "timer s0 = Some h"
      by (auto simp: f split: option.splits if_splits)
    have older: "\<exists>s0'. sessions w q' = Some s0' \<and> timer s0' = Some h"
      if "sessions ?w q' = Some s'" "timer s' = Some h" for q' s'
      using that by (auto simp: f split: option.splits if_splits)
    from wellFormed_handle [OF wf s0] older
    show "h < nextHandle ?w \<and> (\<forall>q' s'. sessions ?w q' = Some s' \<and> timer s' = Some h \<longrightarrow> q' = q)"
      by (fastforce simp: f(2))
  next
    fix q s assume "sessions ?w q = Some s"
    with wellFormed_session [OF wf, of q] pn
    show "\<exists>pn'. panels ?w q = Some pn' \<and> (disposed pn' \<longleftrightarrow> \<not> subscribed s)"
      by (auto simp: f split: option.splits if_splits)
  next
    fix q pn' assume "panels ?w q = Some pn'"
    with wellFormed_panel [OF wf, of q] pn show "q < nextPanel ?w"
      by (auto simp: f split: if_splits)
  next
    fix c panel assume "awaiting ?w c = Some panel"
    with wellFormed_awaiting [OF wf, of c panel]
    show "panel < nextPanel ?w \<and> sessions ?w panel = None
             \<and> (\<forall>c'. awaiting ?w c' = Some panel \<longrightarrow> c' = c)"
      by (auto simp: a f split: option.splits)
  qed
qed

lemma awaiting_append [simp]: "awaiting (w\<lparr>commands := commands w @ [AwaitShow k]\<rparr>) = awaiting w"
  by (auto simp: fun_eq_iff awaiting_def nth_append)

lemma wellFormed_invokeOpen: "wellFormed w \<Longrightarrow> wellFormed (invokeOpen editor w)"
proof -
  assume wf: "wellFormed w"
  have "wellFormed (w\<lparr>commands := commands w @ [AwaitShow k]\<rparr>)" for k
    using wf by (rule wellFormed_cong) simp_all
  moreover have "wellFormed (w\<lparr>notices := n\<rparr>)" for n
    using wf by (rule wellFormed_cong) (simp_all add: fun_eq_iff awaiting_def)
  moreover have "wellFormed (w\<lparr>revealed := r\<rparr>)" for r
    using wf by (rule wellFormed_cong) (simp_all add: fun_eq_iff awaiting_def)
  ultimately show ?thesis
    by (simp add: invokeOpen_def split: option.splits)
qed

lemma awaiting_settle:
  "awaiting (w\<lparr>commands := (commands w)[c := Settled]\<rparr>) c' = (if c' = c then None else awaiting w c')"
  by (auto simp: awaiting_def nth_list_update)

lemma wellFormed_settle:
  assumes wf: "wellFormed w"
  shows "wellFormed (w\<lparr>commands := (commands w)[c := Settled]\<rparr>)"
proof (rule wellFormedI)
  let ?w = "w\<lparr>commands := (commands w)[c := Settled]\<rparr>"
  fix tm assume "tm \<in> set (timeouts ?w)"
  with wellFormed_timeout [OF wf, of tm]
  show "\<exists>s. sessions ?w (cbPanel tm) = Some s \<and> timer s = Some (handle tm) \<and> key s = cbDoc tm"
    by simp
next
  let ?w = "w\<lparr>commands := (commands w)[c := Settled]\<rparr>"
  fix p s h assume "sessions ?w p = Some s" "timer s = Some h"
  with wellFormed_handle [OF wf, of p s h]
  show "h < nextHandle ?w \<and> (\<forall>q s'. sessions ?w q = Some s' \<and> timer s' = Some h \<longrightarrow> q = p)"
    by simp
next
  let ?w = "w\<lparr>commands := (commands w)[c := Settled]\<rparr>"
  fix p s assume "sessions ?w p = Some s"
  with wellFormed_session [OF wf, of p s]
  show "\<exists>pn. panels ?w p = Some pn \<and> (disposed pn \<longleftrightarrow> \<not> subscribed s)"
    by simp
next
  let ?w = "w\<lparr>commands := (commands w)[c := Settled]\<rparr>"
  fix p pn assume "panels ?w p = Some pn"
  with wellFormed_panel [OF wf, of p pn] show "p < nextPanel ?w" by simp
next
  let ?w = "w\<lparr>commands := (commands w)[c := Settled]\<rparr>"
  fix c' panel assume a: "awaiting ?w c' = Some panel"
  then have old: "awaiting w c' = Some panel" "c' \<noteq> c"
    by (auto simp: awaiting_settle split: if_splits)
  from wellFormed_awaiting [OF wf old(1)]
  show "panel < nextPanel ?w \<and> sessions ?w panel = None
             \<and> (\<forall>c''. awaiting ?w c'' = Some panel \<longrightarrow> c'' = c')"
    by (auto simp: awaiting_settle split: if_splits)
qed

lemma awaiting_installSession [simp]:
  "awaiting (installSession panel k content d server w) = awaiting w"
  by (simp add: fun_eq_iff awaiting_def installSession_fields)

lemma wellFormed_installSession:
  assumes wf: "wellFormed w" and fresh: "sessions w panel = None" "panel < nextPanel w"
    and free: "\<And>c. awaiting w c \<noteq> Some panel"
  shows "wellFormed (installSession panel k content d server w)"
proof (rule wellFormedI)
  let ?w = "installSession panel k content d server w"
  fix tm assume "tm \<in> set (timeouts ?w)"
  then consider "tm \<in> set (timeouts w)"
    | "tm = \<lparr>handle = nextHandle w, due = now w + timerDelay (nat d), cbPanel = panel,
             cbDoc = k\<rparr>"
    by (auto simp: installSession_fields(1))
  then show "\<exists>s. sessions ?w (cbPanel tm) = Some s \<and> timer s = Some (handle tm) \<and> key s = cbDoc tm"
  proof cases
    case 1
    from wellFormed_timeout [OF wf 1] fresh(1) have "cbPanel tm \<noteq> panel" by auto
    with wellFormed_timeout [OF wf 1] show ?thesis
      by (simp add: installSession_fields(2))
  next
    case 2
    then show ?thesis by (simp add: installSession_fields(2))
  qed
next
  let ?w = "installSession panel k content d server w"
  have nh: "nextHandle ?w = Suc (nextHandle w)"
    by (simp add: installSession_fields)
  have ses: "sessions ?w q = (if q = panel
      then Some \<lparr>key = k, timer = Some (nextHandle w), delayMs = nat d, demoServer = server,
                 subscribed = True\<rparr>
      else sessions w q)" for q
    by (simp add: installSession_fields(2))
  fix p s h assume a: "sessions ?w p = Some s" "timer s = Some h"
  have older: "h < nextHandle w" if "q \<noteq> panel" "sessions ?w q = Some s'" "timer s' = Some h"
    for q s'
    using that wellFormed_handle [OF wf, of q s' h] by (simp add: ses)
  have newer: "h = nextHandle w" if "sessions ?w panel = Some s'" "timer s' = Some h" for s'
    using that by (auto simp: ses)
  have "h < nextHandle ?w"
    using a older [of p s] newer [of s] unfolding nh by (cases "p = panel") auto
  moreover have "q = p" if q: "sessions ?w q = Some s'" "timer s' = Some h" for q s'
  proof (cases "p = panel")
    case True
    show ?thesis
    proof (cases "q = panel")
      case False
      from older [OF False q] newer [of s] a True show ?thesis by simp
    qed (simp add: True)
  next
    case False
    show ?thesis
    proof (cases "q = panel")
      case True
      from older [OF False a] newer [of s'] q True show ?thesis by simp
    next
      case qp: False
      from a False have "sessions w p = Some s" by (simp add: ses)
      from wellFormed_handle [OF wf this a(2)] q qp show ?thesis
        by (simp add: ses)
    qed
  qed
  ultimately show "h < nextHandle ?w
      \<and> (\<forall>q s'. sessions ?w q = Some s' \<and> timer s' = Some h \<longrightarrow> q = p)"
    by blast
next
  let ?w = "installSession panel k content d server w"
  fix p s assume a: "sessions ?w p = Some s"
  show "\<exists>pn. panels ?w p = Some pn \<and> (disposed pn \<longleftrightarrow> \<not> subscribed s)"
  proof (cases "p = panel")
    case True
    with a show ?thesis by (auto simp: installSession_fields(2,4))
  next
    case False
    with a have "sessions w p = Some s" by (simp add: installSession_fields(2))
    from wellFormed_session [OF wf this] False show ?thesis
      by (simp add: installSession_fields(4))
  qed
next
  let ?w = "installSession panel k content d server w"
  fix p pn assume a: "panels ?w p = Some pn"
  show "p < nextPanel ?w"
  proof (cases "p = panel")
    case True
    with fresh(2) show ?thesis by (simp add: installSession_fields(5))
  next
    case False
    with a have "panels w p = Some pn" by (simp add: installSession_fields(4))
    from wellFormed_panel [OF wf this] show ?thesis by (simp add: installSession_fields(5))
  qed
next
  let ?w = "installSession panel k content d server w"
  fix c panel' assume a: "awaiting ?w c = Some panel'"
  then have old: "awaiting w c = Some panel'" by simp
  then have ne: "panel' \<noteq> panel" using free [of c] by auto
  from wellFormed_awaiting [OF wf old] ne
  show "panel' < nextPanel ?w \<and> sessions ?w panel' = None
             \<and> (\<forall>c'. awaiting ?w c' = Some panel' \<longrightarrow> c' = c)"
    by (simp add: installSession_fields(2,5))
qed

lemma wellFormed_finishOpen:
  assumes "wellFormed w" "sessions w panel = None" "panel < nextPanel w"
    and "\<And>c. awaiting w c \<noteq> Some panel"
  shows "wellFormed (snd (finishOpen host panel k remoteUrl demoUrl d allowHttp server w))"
proof -
  have "wellFormed (installSession panel k content d server w)" for content
    using assms by (rule wellFormed_installSession)
  with assms(1) show ?thesis
    by (simp add: finishOpen_def split: sum.splits)
qed

lemma wellFormed_resumeListened:
  assumes wf: "wellFormed w"
  shows "wellFormed (snd (resumeListened host c outcome w))"
proof (cases "awaiting w c")
  case None
  then have "resumeListened host c outcome w = (None, w)"
    by (auto simp: resumeListened_def awaiting_def split: Suspended.splits)
  with wf show ?thesis by simp
next
  case (Some panel)
  then obtain k remoteUrl d allowHttp server where
    c: "c < length (commands w)" "commands w ! c = AwaitListen k panel remoteUrl d allowHttp server"
    by (auto simp: awaiting_def split: if_splits Suspended.splits)
  let ?w1 = "w\<lparr>servers := (servers w)[server := serverStateOf outcome],
               commands := (commands w)[c := Settled]\<rparr>"
  have aw: "awaiting ?w1 c' = (if c' = c then None else awaiting w c')" for c'
    using awaiting_settle [of w c c'] by (simp add: awaiting_def)
  have wf1: "wellFormed ?w1"
    using wellFormed_settle [OF wf, of c]
    by (rule wellFormed_cong) (simp_all add: fun_eq_iff aw awaiting_settle)
  from wellFormed_awaiting [OF wf Some]
  have fresh: "sessions ?w1 panel = None" "panel < nextPanel ?w1"
    and free: "\<And>c'. awaiting ?w1 c' \<noteq> Some panel"
    by (auto simp: aw)
  have fin: "wellFormed (snd (finishOpen host panel k remoteUrl demoUrl d allowHttp sv ?w1))"
    for demoUrl sv
    using wf1 fresh free by (rule wellFormed_finishOpen)
  show ?thesis
    using c wf1 fin by (cases outcome) (simp_all add: resumeListened_def Let_def)
qed

lemma wellFormed_resumeShown:
  assumes wf: "wellFormed w"
  shows "wellFormed (snd (resumeShown host c cfg w))"
proof (cases "\<exists>k. c < length (commands w) \<and> commands w ! c = AwaitShow k")
  case False
  then have "resumeShown host c cfg w = (None, w)"
    by (auto simp: resumeShown_def split: Suspended.splits)
  with wf show ?thesis by simp
next
  case True
  then obtain k where c: "c < length (commands w)" "commands w ! c = AwaitShow k" by blast
  let ?p = "nextPanel w"
  let ?w1 = "w\<lparr>panels := (panels w)(?p := Some \<lparr>html = None, disposed = False\<rparr>),
               nextPanel := Suc ?p\<rparr>"
  have nos: "sessions w ?p = None"
  proof (cases "sessions w ?p")
    case (Some s)
    from wellFormed_session [OF wf Some] wellFormed_panel [OF wf, of ?p] show ?thesis by auto
  qed simp
  have aw1: "awaiting ?w1 = awaiting w"
    by (simp add: fun_eq_iff awaiting_def)
  have wf1: "wellFormed ?w1"
  proof (rule wellFormedI)
    fix tm assume "tm \<in> set (timeouts ?w1)"
    with wellFormed_timeout [OF wf, of tm]
    show "\<exists>s. sessions ?w1 (cbPanel tm) = Some s \<and> timer s = Some (handle tm) \<and> key s = cbDoc tm"
      by simp
  next
    fix p s h assume "sessions ?w1 p = Some s" "timer s = Some h"
    with wellFormed_handle [OF wf, of p s h]
    show "h < nextHandle ?w1 \<and> (\<forall>q s'. sessions ?w1 q = Some s' \<and> timer s' = Some h \<longrightarrow> q = p)"
      by simp
  next
    fix p s assume "sessions ?w1 p = Some s"
    with wellFormed_session [OF wf, of p s] nos
    show "\<exists>pn. panels ?w1 p = Some pn \<and> (disposed pn \<longleftrightarrow> \<not> subscribed s)"
      by auto
  next
    fix p pn assume "panels ?w1 p = Some pn"
    with wellFormed_panel [OF wf, of p] show "p < nextPanel ?w1"
      by (auto split: if_splits simp: less_Suc_eq)
  next
    fix c' panel assume "awaiting ?w1 c' = Some panel"
    with wellFormed_awaiting [OF wf, of c' panel]
    show "panel < nextPanel ?w1 \<and> sessions ?w1 panel = None
             \<and> (\<forall>c''. awaiting ?w1 c'' = Some panel \<longrightarrow> c'' = c')"
      by (auto simp: aw1)
  qed
  have notheld: "awaiting w c' \<noteq> Some ?p" for c'
    using wellFormed_awaiting [OF wf, of c' ?p] by auto
  show ?thesis
  proof (cases "isHttpsUrl host (Some (remoteUrl_of cfg))")
    case True
    let ?w2 = "?w1\<lparr>commands := (commands ?w1)[c := Settled]\<rparr>"
    have wf2: "wellFormed ?w2"
      by (rule wellFormed_settle [OF wf1])
    have "awaiting ?w2 c' \<noteq> Some ?p" for c'
      using awaiting_settle [of ?w1 c c'] notheld [of c'] by (simp add: aw1)
    then have "wellFormed (snd (finishOpen host ?p k (remoteUrl_of cfg) None (debounceMs_of cfg)
                                  (allowHttp_of cfg) None ?w2))"
      using wf2 nos by (intro wellFormed_finishOpen) simp_all
    with True c show ?thesis
      by (simp add: resumeShown_def Let_def)
  next
    case False
    let ?cmd = "AwaitListen k ?p (remoteUrl_of cfg) (debounceMs_of cfg) (allowHttp_of cfg)
                  (length (servers w))"
    let ?w2 = "?w1\<lparr>servers := servers ?w1 @ [NeverBound],
                  commands := (commands ?w1)[c := ?cmd]\<rparr>"
    have aw2: "awaiting ?w2 c' = (if c' = c then Some ?p else awaiting w c')" for c'
      using c by (auto simp: awaiting_def nth_list_update)
    have "wellFormed ?w2"
    proof (rule wellFormedI)
      fix tm assume "tm \<in> set (timeouts ?w2)"
      with wellFormed_timeout [OF wf1, of tm]
      show "\<exists>s. sessions ?w2 (cbPanel tm) = Some s \<and> timer s = Some (handle tm) \<and> key s = cbDoc tm"
        by simp
    next
      fix p s h assume "sessions ?w2 p = Some s" "timer s = Some h"
      with wellFormed_handle [OF wf1, of p s h]
      show "h < nextHandle ?w2 \<and> (\<forall>q s'. sessions ?w2 q = Some s' \<and> timer s' = Some h \<longrightarrow> q = p)"
        by simp
    next
      fix p s assume "sessions ?w2 p = Some s"
      with wellFormed_session [OF wf1, of p s]
      show "\<exists>pn. panels ?w2 p = Some pn \<and> (disposed pn \<longleftrightarrow> \<not> subscribed s)"
        by simp
    next
      fix p pn assume "panels ?w2 p = Some pn"
      with wellFormed_panel [OF wf1, of p pn] show "p < nextPanel ?w2" by simp
    next
      fix c' panel assume a: "awaiting ?w2 c' = Some panel"
      have f2: "nextPanel ?w2 = Suc ?p" "sessions ?w2 = sessions w"
        by simp_all
      show "panel < nextPanel ?w2 \<and> sessions ?w2 panel = None
             \<and> (\<forall>c''. awaiting ?w2 c'' = Some panel \<longrightarrow> c'' = c')"
      proof (cases "c' = c")
        case True
        with a have p: "panel = ?p" unfolding aw2 by simp
        have "c'' = c" if "awaiting ?w2 c'' = Some ?p" for c''
          using that notheld [of c''] unfolding aw2 by (simp split: if_splits)
        with True p nos show ?thesis
          unfolding f2 by blast
      next
        case False
        with a have old: "awaiting w c' = Some panel" unfolding aw2 by simp
        note o = wellFormed_awaiting [OF wf old]
        have "c'' = c'" if "awaiting ?w2 c'' = Some panel" for c''
          using that o unfolding aw2 by (auto split: if_splits)
        with o show ?thesis
          unfolding f2 by auto
      qed
    qed
    with False c show ?thesis
      by (simp add: resumeShown_def Let_def)
  qed
qed

lemma wellFormed_step: "wellFormed w \<Longrightarrow> wellFormed (step host w e)"
  by (cases e)
     (simp_all add: wellFormed_invokeOpen wellFormed_resumeShown wellFormed_resumeListened
        wellFormed_changeTextDocument wellFormed_disposePanel wellFormed_advance)

lemma wellFormed_run: "wellFormed w \<Longrightarrow> wellFormed (run host w es)"
  unfolding run_def by (induction es arbitrary: w) (simp_all add: wellFormed_step)

subsection \<open>A disposed panel\<close>

text \<open>
  Once a panel is disposed it stays disposed, and no event posts to it: the timer
  callback and line 64 both read \<^verbatim>\<open>panel.webview\<close>, and the change listener of its
  session is gone.
\<close>

lemma posted_finishOpen [simp]:
  "posted (snd (finishOpen host panel k remoteUrl demoUrl d allowHttp server w)) = posted w"
  by (simp add: finishOpen_def installSession_fields split: sum.splits)

lemma panelDisposed_finishOpen:
  assumes "panelDisposed w p"
  shows "panelDisposed (snd (finishOpen host panel k remoteUrl demoUrl d allowHttp server w)) p"
proof (cases "panel = p")
  case True
  with assms show ?thesis by (simp add: finishOpen_def)
next
  case False
  with assms show ?thesis
    by (simp add: finishOpen_def panelDisposed_def installSession_fields split: sum.splits)
qed

lemma disposed_invokeOpen:
  "panelDisposed (invokeOpen editor w) p = panelDisposed w p"
  "posted (invokeOpen editor w) = posted w"
  by (simp_all add: invokeOpen_def panelDisposed_def split: option.splits)

lemma disposed_resumeListened:
  "posted (snd (resumeListened host c outcome w)) = posted w"
  "panelDisposed w p \<Longrightarrow> panelDisposed (snd (resumeListened host c outcome w)) p"
proof -
  show "posted (snd (resumeListened host c outcome w)) = posted w"
    by (simp add: resumeListened_def Let_def split: Suspended.splits ListenOutcome.splits)
  assume d: "panelDisposed w p"
  have "panelDisposed (w\<lparr>servers := sv, commands := cm\<rparr>) p" for sv cm
    using d by (simp add: panelDisposed_def)
  then show "panelDisposed (snd (resumeListened host c outcome w)) p"
    using d
    by (simp add: resumeListened_def Let_def panelDisposed_finishOpen
        split: Suspended.splits ListenOutcome.splits)
qed

lemma disposed_resumeShown:
  "posted (snd (resumeShown host c cfg w)) = posted w"
  "wellFormed w \<Longrightarrow> panelDisposed w p \<Longrightarrow> panelDisposed (snd (resumeShown host c cfg w)) p"
proof -
  show "posted (snd (resumeShown host c cfg w)) = posted w"
    by (simp add: resumeShown_def Let_def split: Suspended.splits)
  assume wf: "wellFormed w" and d: "panelDisposed w p"
  from d obtain pn where "panels w p = Some pn"
    by (auto simp: panelDisposed_def split: option.splits)
  from wellFormed_panel [OF wf this] have ne: "p \<noteq> nextPanel w" by simp
  have created: "panelDisposed (w\<lparr>panels := (panels w)(nextPanel w := Some pn'),
                                  nextPanel := n, commands := cm\<rparr>) p" for pn' n cm
    using d ne by (simp add: panelDisposed_def)
  have awaits: "panelDisposed (w\<lparr>panels := (panels w)(nextPanel w := Some pn'),
                                  nextPanel := n, servers := sv, commands := cm\<rparr>) p" for pn' n cm sv
    using d ne by (simp add: panelDisposed_def)
  show "panelDisposed (snd (resumeShown host c cfg w)) p"
    using d created awaits
    by (simp add: resumeShown_def Let_def panelDisposed_finishOpen split: Suspended.splits)
qed

lemma disposed_changeTextDocument:
  "posted (changeTextDocument u newText newVersion w) = posted w"
  "panelDisposed (changeTextDocument u newText newVersion w) p = panelDisposed w p"
  by (simp_all add: changeTextDocument_def fireDidChange_fold panelDisposed_def)

lemma disposed_disposePanel:
  "posted (disposePanel q w) = posted w"
  "panelDisposed w p \<Longrightarrow> panelDisposed (disposePanel q w) p"
  by (auto simp: disposePanel_def onDidDispose_def panelDisposed_def split: option.splits)

lemma step_disposed:
  assumes wf: "wellFormed w" and d: "panelDisposed w p"
  shows "panelDisposed (step host w e) p \<and> postsTo p (step host w e) = postsTo p w"
proof (cases e)
  case (Invoke editor)
  with d show ?thesis by (simp add: disposed_invokeOpen postsTo_def)
next
  case (Shown c cfg)
  with wf d show ?thesis by (simp add: disposed_resumeShown postsTo_def)
next
  case (Listened c outcome)
  with d show ?thesis by (simp add: disposed_resumeListened postsTo_def)
next
  case (Change u newText newVersion)
  with d show ?thesis by (simp add: disposed_changeTextDocument postsTo_def)
next
  case (Dispose q)
  with d show ?thesis by (simp add: disposed_disposePanel postsTo_def)
next
  case (Advance t)
  with d show ?thesis by (simp add: postsTo_advance)
qed

lemma run_disposed:
  assumes "wellFormed w" "panelDisposed w p"
  shows "panelDisposed (run host w es) p \<and> postsTo p (run host w es) = postsTo p w"
  using assms
proof (induction es arbitrary: w)
  case Nil
  then show ?case by (simp add: run_def)
next
  case (Cons e es)
  from step_disposed [OF Cons.prems, of host e] Cons.IH [OF wellFormed_step [OF Cons.prems(1)], of host e]
  show ?case by (simp add: run_def)
qed

lemma panelDisposed_disposePanel:
  "panels w p = Some pn \<Longrightarrow> panelDisposed (disposePanel p w) p"
  by (auto simp: disposePanel_def onDidDispose_def panelDisposed_def split: option.splits)

lemma timeouts_disposePanel: "timeouts (disposePanel p w) = timeouts w"
  by (auto simp: disposePanel_def onDidDispose_def split: option.splits)

subsection \<open>The command uninterrupted and in its parts\<close>

text \<open>
  When nothing comes between the parts of an invocation, they do together what
  \<open>openPreview\<close> does; only the record of the invocation itself is added.
\<close>

lemma installSession_commands:
  "installSession panel k content d server (w\<lparr>commands := cm\<rparr>)
     = (installSession panel k content d server w)\<lparr>commands := cm\<rparr>"
  by (rule World.equality) (simp_all add: installSession_fields)

lemma finishOpen_commands:
  "finishOpen host panel k remoteUrl demoUrl d allowHttp server (w\<lparr>commands := cm\<rparr>)
     = (fst (finishOpen host panel k remoteUrl demoUrl d allowHttp server w),
        (snd (finishOpen host panel k remoteUrl demoUrl d allowHttp server w))\<lparr>commands := cm\<rparr>)"
  by (simp add: finishOpen_def panelDisposed_def installSession_commands split: sum.splits)

lemma invokeOpen_early:
  assumes "\<not> (\<exists>k. activeTextEditor req = Some k \<and> isYaml (documents w k) \<and> previewByDoc w k = None)"
  shows "openPreview host req w = (None, invokeOpen (activeTextEditor req) w)"
    and "commands (invokeOpen (activeTextEditor req) w) = commands w"
  using assms by (auto simp: openPreview_def invokeOpen_def split: option.splits)

lemma resume_settled:
  "\<not> c < length (commands w) \<Longrightarrow> resumeShown host c cfg w = (None, w)"
  "\<not> c < length (commands w) \<Longrightarrow> resumeListened host c outcome w = (None, w)"
  "commands w ! c = Settled \<Longrightarrow> resumeListened host c outcome w = (None, w)"
  by (simp_all add: resumeShown_def resumeListened_def)

lemma openPreview_parts:
  fixes host req w
  defines "c \<equiv> length (commands w)"
  defines "shown \<equiv> resumeShown host c (configuration req) (invokeOpen (activeTextEditor req) w)"
  defines "listened \<equiv> resumeListened host c (listenOutcome req) (snd shown)"
  shows "openPreview host req w
           = (case fst shown of Some e \<Rightarrow> Some e | None \<Rightarrow> fst listened,
              (snd listened)\<lparr>commands := commands w\<rparr>)"
proof (cases "\<exists>k. activeTextEditor req = Some k \<and> isYaml (documents w k) \<and> previewByDoc w k = None")
  case False
  note early = invokeOpen_early [OF False]
  have s: "shown = (None, invokeOpen (activeTextEditor req) w)"
    unfolding shown_def c_def by (rule resume_settled) (simp add: early)
  have l: "listened = (None, invokeOpen (activeTextEditor req) w)"
    unfolding listened_def s c_def by (simp add: resume_settled early)
  have "(invokeOpen (activeTextEditor req) w)\<lparr>commands := commands w\<rparr>
          = invokeOpen (activeTextEditor req) w"
    by (rule World.equality) (simp_all add: early)
  then show ?thesis
    by (simp add: early s l)
next
  case True
  then obtain k where k: "activeTextEditor req = Some k" "isYaml (documents w k)"
    "previewByDoc w k = None"
    by blast
  let ?cfg = "configuration req"
  let ?w1 = "w\<lparr>panels := (panels w)(nextPanel w := Some \<lparr>html = None, disposed = False\<rparr>),
               nextPanel := Suc (nextPanel w)\<rparr>"
  have inv: "invokeOpen (activeTextEditor req) w = w\<lparr>commands := commands w @ [AwaitShow k]\<rparr>"
    using k by (simp add: invokeOpen_def)
  have restore: "v\<lparr>commands := cm, commands := commands w\<rparr> = v" if "commands v = commands w"
    for v :: World and cm
    by (rule World.equality) (simp_all add: that)
  have fo: "commands (snd (finishOpen host p k' r du d a sv (?w1\<lparr>servers := svs\<rparr>))) = commands w"
    "commands (snd (finishOpen host p k' r du d a sv ?w1)) = commands w"
    for p k' r du d a sv svs
    by (simp_all add: finishOpen_def installSession_fields split: sum.splits)
  have same: "(case r of Some e \<Rightarrow> Some e | None \<Rightarrow> None) = r" for r :: "Error option"
    by (simp split: option.splits)
  show ?thesis
  proof (cases "isHttpsUrl host (Some (remoteUrl_of ?cfg))")
    case True
    define F where "F = finishOpen host (nextPanel w) k (remoteUrl_of ?cfg) None (debounceMs_of ?cfg)
                       (allowHttp_of ?cfg) None ?w1"
    have s: "shown = (fst F, (snd F)\<lparr>commands := commands w @ [Settled]\<rparr>)"
      unfolding shown_def c_def inv F_def finishOpen_commands [symmetric] using True
      by (simp add: resumeShown_def Let_def)
    have l: "listened = (None, snd shown)"
      unfolding listened_def c_def by (rule resume_settled) (simp add: s)
    have o: "openPreview host req w = F"
      unfolding F_def using k True
      by (simp add: openPreview_def startUnlessRemote_def Let_def finishOpen_def panelDisposed_def
          split: sum.splits)
    have "commands (snd F) = commands w"
      unfolding F_def by (rule fo)
    then show ?thesis
      unfolding o l unfolding s by (simp add: restore prod_eq_iff split: option.splits)
  next
    case False
    let ?w2 = "?w1\<lparr>servers := servers w @ [NeverBound],
                   commands := commands w @ [AwaitListen k (nextPanel w) (remoteUrl_of ?cfg)
                        (debounceMs_of ?cfg) (allowHttp_of ?cfg) (length (servers w))]\<rparr>"
    have s: "shown = (None, ?w2)"
      unfolding shown_def c_def inv using False
      by (simp add: resumeShown_def Let_def)
    let ?w3 = "?w1\<lparr>servers := servers w @ [serverStateOf (listenOutcome req)]\<rparr>"
    have l: "listened =
               (case listenOutcome req of
                  AddressInfo port \<Rightarrow>
                    finishOpen host (nextPanel w) k (remoteUrl_of ?cfg) (Some (demoServerUrl port))
                      (debounceMs_of ?cfg) (allowHttp_of ?cfg) (Some (length (servers w)))
                      (?w3\<lparr>commands := commands w @ [Settled]\<rparr>)
                | ListenFails \<Rightarrow> (Some ListenError, ?w3\<lparr>commands := commands w @ [Settled]\<rparr>)
                | _ \<Rightarrow> (Some DemoServerFailedToBind, ?w3\<lparr>commands := commands w @ [Settled]\<rparr>))"
      unfolding listened_def c_def s
      by (simp add: resumeListened_def Let_def split: ListenOutcome.splits)
    have o: "openPreview host req w =
               (case listenOutcome req of
                  AddressInfo port \<Rightarrow>
                    finishOpen host (nextPanel w) k (remoteUrl_of ?cfg) (Some (demoServerUrl port))
                      (debounceMs_of ?cfg) (allowHttp_of ?cfg) (Some (length (servers w))) ?w3
                | ListenFails \<Rightarrow> (Some ListenError, ?w3)
                | _ \<Rightarrow> (Some DemoServerFailedToBind, ?w3))"
      using k False
      by (simp add: openPreview_def startUnlessRemote_def startDemoServer_def Let_def
          finishOpen_def panelDisposed_def serverStateOf_def split: ListenOutcome.splits sum.splits)
    show ?thesis
      unfolding o l s finishOpen_commands
      by (cases "listenOutcome req") (simp_all add: restore fo)
  qed
qed

subsection \<open>The sample session\<close>

lemma sampleSession_fields:
  "previewByDoc (sampleSession delay) sampleKey = Some 0"
  "sessions (sampleSession delay) 0
     = Some \<lparr>key = sampleKey, timer = Some 0,
             delayMs = nat (debounceMs_of (sampleConfig delay)),
             demoServer = Some 0, subscribed = True\<rparr>"
  "timeouts (sampleSession delay)
     = [\<lparr>handle = 0, due = timerDelay (nat (debounceMs_of (sampleConfig delay))), cbPanel = 0,
         cbDoc = sampleKey\<rparr>]"
  "posted (sampleSession delay) = []"
  "uncaught (sampleSession delay) = []"
  "now (sampleSession delay) = 0"
  "documents (sampleSession delay) = sampleDocs"
  "servers (sampleSession delay) = [Listening 54321]"
  "nextPanel (sampleSession delay) = 1"
  "panels (sampleSession delay) 0 = Some \<lparr>html = Some (LocalServed,
       \<lparr>src = ''http://127.0.0.1:54321/index.html'', frameSrcCsp = ''http://127.0.0.1:54321'',
        targetOrigin = ''http://127.0.0.1:54321''\<rparr>), disposed = False\<rparr>"
  "commands (sampleSession delay) = [Settled]"
  by (simp_all add: sampleSession_def run_def invokeOpen_def resumeShown_def resumeListened_def
      finishOpen_def panelDisposed_def serverStateOf_def Let_def isYaml_def
      isHttpsUrl_def resolveAppSrc_def truthy_def demoServerUrl_def showNat.simps
      remoteUrl_of_def allowHttp_of_def cfg_get_def sampleHost_def
      sampleURL_def sampleConfig_def sampleDocs_def installSession_fields activate_def)

lemma wellFormed_sampleSession: "wellFormed (sampleSession delay)"
  unfolding sampleSession_def by (intro wellFormed_run wellFormed_activate)

section \<open>Properties\<close>



text \<open>
  C10. The handler matches the part of the request address before the first question
  mark, and a request without an address counts as one for \<^verbatim>\<open>/\<close>: with a readable page,
  \<^verbatim>\<open>/index.html?x=1\<close> and \<^verbatim>\<open>/?q\<close> are answered 200 with the page.
\<close>

theorem request_query_ignored:
  "(CHR ''?'' \<notin> set p \<longrightarrow> urlPath (Some (p @ CHR ''?'' # q)) = p)
   \<and> urlPath None = ''/''
   \<and> requestHandler readFile demoPath None = requestHandler readFile demoPath (Some ''/'')
   \<and> (readFile demoPath = Some page \<longrightarrow>
        statusCode (requestHandler readFile demoPath (Some ''/index.html?x=1'')) = 200
        \<and> body (requestHandler readFile demoPath (Some ''/index.html?x=1'')) = page
        \<and> statusCode (requestHandler readFile demoPath (Some ''/?q'')) = 200
        \<and> body (requestHandler readFile demoPath (Some ''/?q'')) = page)"
  by (auto simp: urlPath_def truthy_def requestHandler_def freshResponse_def takeWhile_tail)

theorem request_query_ignored_witness:
  "urlPath (Some ''/index.html?x=1'') = ''/index.html''
   \<and> statusCode (requestHandler (\<lambda>f. Some ''<html></html>'') ''/ext/src/demo/index.html''
                    (Some ''/index.html?x=1'')) = 200
   \<and> body (requestHandler (\<lambda>f. Some ''<html></html>'') ''/ext/src/demo/index.html''
                    (Some ''/?q'')) = ''<html></html>''"
  using request_query_ignored
          [of "''/index.html''" "''x=1''" "\<lambda>f. Some ''<html></html>''"
              "''/ext/src/demo/index.html''" "''<html></html>''"]
  by simp

text \<open>
  C8. A request whose path is \<^verbatim>\<open>/\<close> or \<^verbatim>\<open>/index.html\<close> is answered 200 with the page
  as the file system holds it when the request is handled, and the content type
  \<^verbatim>\<open>text/html; charset=utf-8\<close>; any other path is answered 404; a failed read is
  answered 500. Serving a request keeps nothing and changes nothing of the extension's
  state, so a later request reads the file again and every session stays as it was.
\<close>

theorem request_handler_status:
  "((urlPath url = ''/'' \<or> urlPath url = ''/index.html'') \<and> readFile demoPath = Some page \<longrightarrow>
      requestHandler readFile demoPath url
        = \<lparr>statusCode = 200, headers = [(''Content-Type'', ''text/html; charset=utf-8'')],
           body = page\<rparr>)
   \<and> (urlPath url \<noteq> ''/'' \<and> urlPath url \<noteq> ''/index.html'' \<longrightarrow>
        statusCode (requestHandler readFile demoPath url) = 404)
   \<and> ((urlPath url = ''/'' \<or> urlPath url = ''/index.html'') \<and> readFile demoPath = None \<longrightarrow>
        statusCode (requestHandler readFile demoPath url) = 500)
   \<and> snd (serveRequest host readFile port url w) = w
   \<and> (Listening port \<in> set (servers w) \<longrightarrow>
        fst (serveRequest host readFile port url w)
          = Some (requestHandler readFile (demoFsPath host) url)
        \<and> fst (serveRequest host readFile' port url (snd (serveRequest host readFile port url w)))
          = Some (requestHandler readFile' (demoFsPath host) url))"
  by (auto simp: requestHandler_def freshResponse_def serveRequest_def)

theorem request_handler_status_witness:
  "requestHandler (\<lambda>f. Some ''v1'') ''/ext/src/demo/index.html'' (Some ''/'')
     = \<lparr>statusCode = 200, headers = [(''Content-Type'', ''text/html; charset=utf-8'')],
        body = ''v1''\<rparr>
   \<and> statusCode (requestHandler (\<lambda>f. Some ''v1'') ''/ext/src/demo/index.html''
                    (Some ''/missing.png'')) = 404
   \<and> statusCode (requestHandler (\<lambda>f. None) ''/ext/src/demo/index.html''
                    (Some ''/index.html'')) = 500
   \<and> fst (serveRequest sampleHost (\<lambda>f. Some ''v2'') 54321 (Some ''/'')
             (snd (serveRequest sampleHost (\<lambda>f. Some ''v1'') 54321 (Some ''/'')
                     (snd (openPreview sampleHost (sampleOpen [] True (AddressInfo 54321))
                             (activate sampleDocs))))))
       = Some \<lparr>statusCode = 200, headers = [(''Content-Type'', ''text/html; charset=utf-8'')],
               body = ''v2''\<rparr>"
proof -
  let ?w = "snd (openPreview sampleHost (sampleOpen [] True (AddressInfo 54321))
                   (activate sampleDocs))"
  have sv: "servers ?w = [Listening 54321]"
    by (simp add: openPreview_def startUnlessRemote_def startDemoServer_def
        installSession_def sendUpdate_def setTimeout_def resolveAppSrc_def isHttpsUrl_def
        isYaml_def remoteUrl_of_def debounceMs_of_def allowHttp_of_def cfg_get_def truthy_def
        demoServerUrl_def showNat.simps activate_def sampleHost_def sampleURL_def
        sampleDocs_def sampleOpen_def Let_def)
  have p1: "urlPath (Some ''/'') = ''/''"
    and p2: "urlPath (Some ''/missing.png'') = ''/missing.png''"
    and p3: "urlPath (Some ''/index.html'') = ''/index.html''"
    by (simp_all add: urlPath_def truthy_def)
  have fs: "demoFsPath sampleHost = ''/ext/src/demo/index.html''"
    by (simp add: sampleHost_def)
  from request_handler_status
         [of "Some ''/''" "\<lambda>f. Some ''v1''" "''/ext/src/demo/index.html''" "''v1''"
             sampleHost 54321 ?w "\<lambda>f. Some ''v2''"]
       request_handler_status
         [of "Some ''/''" "\<lambda>f. Some ''v2''" "''/ext/src/demo/index.html''" "''v2''"
             sampleHost 54321 ?w "\<lambda>f. Some ''v2''"]
       request_handler_status
         [of "Some ''/missing.png''" "\<lambda>f. Some ''v1''" "''/ext/src/demo/index.html''" "''v1''"
             sampleHost 54321 ?w "\<lambda>f. Some ''v2''"]
       request_handler_status
         [of "Some ''/index.html''" "\<lambda>f. None" "''/ext/src/demo/index.html''" "''v1''"
             sampleHost 54321 ?w "\<lambda>f. Some ''v2''"]
  show ?thesis
    by (simp add: sv p1 p2 p3 fs)
qed

text \<open>
  C4. For a platform whose parser rejects the empty string, the resolution is Remote
  exactly when the configured value parses as a URL with the protocol \<^verbatim>\<open>https:\<close>; then
  the frame address is the value itself and the target origin is the origin of the parsed
  value. Where the parser gives \<^verbatim>\<open>https://ex.com/app\<close> the origin \<^verbatim>\<open>https://ex.com\<close>,
  that value resolves to Remote with that target origin.
\<close>

theorem remote_iff_https:
  assumes "newURL host [] = None"
  shows "((\<exists>r. resolveAppSrc host v demoUrl allowHttp = Inr (Remote, r))
            \<longleftrightarrow> (\<exists>u. newURL host v = Some u \<and> protocol u = ''https:''))
         \<and> (\<forall>r. resolveAppSrc host v demoUrl allowHttp = Inr (Remote, r) \<longrightarrow>
               src r = v
               \<and> (\<exists>u. newURL host v = Some u \<and> targetOrigin r = origin u))
         \<and> (newURL host ''https://ex.com/app''
               = Some \<lparr>protocol = ''https:'', origin = ''https://ex.com''\<rparr> \<longrightarrow>
             resolveAppSrc host ''https://ex.com/app'' demoUrl allowHttp
               = Inr (Remote, \<lparr>src = ''https://ex.com/app'', frameSrcCsp = ''https://ex.com'',
                               targetOrigin = ''https://ex.com''\<rparr>))"
  using assms
  by (auto simp: resolveAppSrc_def isHttpsUrl_def split: option.splits if_splits)

theorem remote_iff_https_witness:
  "newURL sampleHost [] = None
   \<and> resolveAppSrc sampleHost ''https://ex.com/app'' None True
       = Inr (Remote, \<lparr>src = ''https://ex.com/app'', frameSrcCsp = ''https://ex.com'',
                       targetOrigin = ''https://ex.com''\<rparr>)
   \<and> (\<nexists>r. resolveAppSrc sampleHost ''http://insecure.example'' None True = Inr (Remote, r))"
proof -
  have e: "newURL sampleHost [] = None"
    by (simp add: sampleHost_def sampleURL_def)
  have p: "newURL sampleHost ''https://ex.com/app''
             = Some \<lparr>protocol = ''https:'', origin = ''https://ex.com''\<rparr>"
    by (simp add: sampleHost_def sampleURL_def)
  have q: "\<nexists>u. newURL sampleHost ''http://insecure.example'' = Some u \<and> protocol u = ''https:''"
    by (simp add: sampleHost_def sampleURL_def)
  from remote_iff_https [OF e, of "''https://ex.com/app''" None True] p
       remote_iff_https [OF e, of "''http://insecure.example''" None True] q
  show ?thesis using e by blast
qed

text \<open>
  C5. Whatever is resolved: for Remote and LocalServed the frame source of the policy
  and the target origin are both the origin of the resolved address; for LocalBundled the
  frame source is the webview's own source followed by \<^verbatim>\<open>vscode-resource:\<close> and the
  target origin is \<^verbatim>\<open>*\<close>. A server bound to port \<open>p\<close> is started with the address
  \<^verbatim>\<open>http://127.0.0.1:p/index.html\<close>, and where the parser gives that address the origin
  \<^verbatim>\<open>http://127.0.0.1:p\<close>, it resolves to LocalServed with that address and origin.
\<close>

theorem embedding_policy:
  "(\<forall>r. resolveAppSrc host remoteUrl demoUrl allowHttp = Inr (Remote, r) \<longrightarrow>
          (\<exists>u. newURL host remoteUrl = Some u \<and> src r = remoteUrl
                \<and> frameSrcCsp r = origin u \<and> targetOrigin r = origin u))
   \<and> (\<forall>r. resolveAppSrc host remoteUrl demoUrl allowHttp = Inr (LocalServed, r) \<longrightarrow>
          (\<exists>a u. demoUrl = Some a \<and> newURL host a = Some u \<and> src r = a
                  \<and> frameSrcCsp r = origin u \<and> targetOrigin r = origin u))
   \<and> (\<forall>r. resolveAppSrc host remoteUrl demoUrl allowHttp = Inr (LocalBundled, r) \<longrightarrow>
          frameSrcCsp r = cspSource host @ '' vscode-resource:'' \<and> targetOrigin r = ''*'')
   \<and> fst (startDemoServer (AddressInfo p) w)
       = Inr (length (servers w), ''http://127.0.0.1:'' @ showNat p @ ''/index.html'')
   \<and> (\<not> isHttpsUrl host (Some remoteUrl)
        \<and> newURL host (''http://127.0.0.1:'' @ showNat p @ ''/index.html'') = Some u
        \<and> origin u = ''http://127.0.0.1:'' @ showNat p \<longrightarrow>
        resolveAppSrc host remoteUrl (Some (snd (projr (fst (startDemoServer (AddressInfo p) w)))))
            True
          = Inr (LocalServed,
                 \<lparr>src = ''http://127.0.0.1:'' @ showNat p @ ''/index.html'',
                  frameSrcCsp = ''http://127.0.0.1:'' @ showNat p,
                  targetOrigin = ''http://127.0.0.1:'' @ showNat p\<rparr>))"
  by (auto simp: resolveAppSrc_def startDemoServer_def demoServerUrl_def truthy_def
           split: option.splits if_splits)

theorem embedding_policy_witness:
  "\<not> isHttpsUrl sampleHost (Some [])
   \<and> resolveAppSrc sampleHost []
         (Some (snd (projr (fst (startDemoServer (AddressInfo 54321) (activate sampleDocs))))))
         True
       = Inr (LocalServed,
              \<lparr>src = ''http://127.0.0.1:54321/index.html'',
               frameSrcCsp = ''http://127.0.0.1:54321'',
               targetOrigin = ''http://127.0.0.1:54321''\<rparr>)
   \<and> resolveAppSrc sampleHost ''http://insecure.example'' None False
       = Inr (LocalBundled,
              \<lparr>src = bundledDemoUri sampleHost,
               frameSrcCsp = cspSource sampleHost @ '' vscode-resource:'',
               targetOrigin = ''*''\<rparr>)"
proof -
  have n: "\<not> isHttpsUrl sampleHost (Some [])"
    by (simp add: isHttpsUrl_def)
  have s: "showNat 54321 = ''54321''"
    by (simp add: showNat.simps)
  let ?u = "\<lparr>protocol = ''http:'', origin = ''http://127.0.0.1:54321''\<rparr>"
  have u: "newURL sampleHost (''http://127.0.0.1:'' @ showNat 54321 @ ''/index.html'') = Some ?u"
    by (simp add: s sampleHost_def sampleURL_def)
  have o: "origin ?u = ''http://127.0.0.1:'' @ showNat 54321"
    by (simp add: s)
  have b: "\<exists>r. resolveAppSrc sampleHost ''http://insecure.example'' None False
                 = Inr (LocalBundled, r) \<and> src r = bundledDemoUri sampleHost"
    by (simp add: resolveAppSrc_def isHttpsUrl_def truthy_def sampleHost_def sampleURL_def)
  then obtain r where r: "resolveAppSrc sampleHost ''http://insecure.example'' None False
                 = Inr (LocalBundled, r)" "src r = bundledDemoUri sampleHost"
    by blast
  from embedding_policy [of sampleHost "[]" "None" False 54321 "activate sampleDocs" ?u] n u o
  have "resolveAppSrc sampleHost []
         (Some (snd (projr (fst (startDemoServer (AddressInfo 54321) (activate sampleDocs))))))
         True
       = Inr (LocalServed,
              \<lparr>src = ''http://127.0.0.1:'' @ showNat 54321 @ ''/index.html'',
               frameSrcCsp = ''http://127.0.0.1:'' @ showNat 54321,
               targetOrigin = ''http://127.0.0.1:'' @ showNat 54321\<rparr>)"
    by blast
  then have served: "resolveAppSrc sampleHost []
         (Some (snd (projr (fst (startDemoServer (AddressInfo 54321) (activate sampleDocs))))))
         True
       = Inr (LocalServed,
              \<lparr>src = ''http://127.0.0.1:54321/index.html'',
               frameSrcCsp = ''http://127.0.0.1:54321'',
               targetOrigin = ''http://127.0.0.1:54321''\<rparr>)"
    by (simp add: s)
  from embedding_policy
         [of sampleHost "''http://insecure.example''" "None" False 54321 "activate sampleDocs"
             "\<lparr>protocol = ''http:'', origin = ''http://127.0.0.1:54321''\<rparr>"] r
  have "frameSrcCsp r = cspSource sampleHost @ '' vscode-resource:'' \<and> targetOrigin r = ''*''"
    by blast
  with r have bundled: "resolveAppSrc sampleHost ''http://insecure.example'' None False
       = Inr (LocalBundled,
              \<lparr>src = bundledDemoUri sampleHost,
               frameSrcCsp = cspSource sampleHost @ '' vscode-resource:'',
               targetOrigin = ''*''\<rparr>)"
    by (cases r) simp
  from n served bundled show ?thesis by blast
qed

text \<open>
  C1, as the code has it. For an open request on a YAML document without a session,
  where \<^verbatim>\<open>allowHttp\<close> is false and the configured remote URL is absent, empty, malformed
  or not https: \<^verbatim>\<open>resolveAppSrc\<close> yields LocalBundled whatever server address it is
  given, and the command nevertheless calls \<^verbatim>\<open>startDemoServer\<close> once, since lines 58
  to 62 start the server whenever the remote URL is not https and do not read
  \<^verbatim>\<open>allowHttp\<close>. When the server binds, it is left listening and the panel shows the
  bundled page with the target origin \<^verbatim>\<open>*\<close>.
\<close>

theorem bundled_when_http_disallowed:
  assumes "activeTextEditor req = Some k" "isYaml (documents w k)" "previewByDoc w k = None"
    and "\<not> allowHttp_of (configuration req)"
    and "\<not> isHttpsUrl host (Some (remoteUrl_of (configuration req)))"
  shows "resolveAppSrc host (remoteUrl_of (configuration req)) demoUrl
             (allowHttp_of (configuration req))
           = Inr (LocalBundled,
                  \<lparr>src = bundledDemoUri host,
                   frameSrcCsp = cspSource host @ '' vscode-resource:'',
                   targetOrigin = ''*''\<rparr>)
         \<and> length (servers (snd (openPreview host req w))) = Suc (length (servers w))
         \<and> (listenOutcome req = AddressInfo port \<longrightarrow>
              servers (snd (openPreview host req w)) = servers w @ [Listening port]
              \<and> fst (openPreview host req w) = None
              \<and> panels (snd (openPreview host req w)) (nextPanel w)
                  = Some \<lparr>html = Some (LocalBundled,
                                       \<lparr>src = bundledDemoUri host,
                                        frameSrcCsp = cspSource host @ '' vscode-resource:'',
                                        targetOrigin = ''*''\<rparr>),
                          disposed = False\<rparr>)"
proof -
  have r: "resolveAppSrc host (remoteUrl_of (configuration req)) demoUrl
             (allowHttp_of (configuration req))
           = Inr (LocalBundled,
                  \<lparr>src = bundledDemoUri host,
                   frameSrcCsp = cspSource host @ '' vscode-resource:'',
                   targetOrigin = ''*''\<rparr>)" for demoUrl
    using assms(4,5) by (simp add: resolveAppSrc_def)
  have "length (servers (snd (openPreview host req w))) = Suc (length (servers w))"
    unfolding openPreview_fresh [OF assms(1,2,3)]
    using assms(5)
    by (auto simp: Let_def r installSession_fields snd_startUnlessRemote split: sum.splits)
  moreover have "servers (snd (openPreview host req w)) = servers w @ [Listening port]
              \<and> fst (openPreview host req w) = None
              \<and> panels (snd (openPreview host req w)) (nextPanel w)
                  = Some \<lparr>html = Some (LocalBundled,
                                       \<lparr>src = bundledDemoUri host,
                                        frameSrcCsp = cspSource host @ '' vscode-resource:'',
                                        targetOrigin = ''*''\<rparr>),
                          disposed = False\<rparr>"
    if "listenOutcome req = AddressInfo port"
    unfolding openPreview_fresh [OF assms(1,2,3)]
    using assms(5) that
    by (simp add: Let_def r installSession_fields startUnlessRemote_def startDemoServer_def)
  ultimately show ?thesis
    using r by blast
qed

theorem bundled_when_http_disallowed_witness:
  "servers (snd (openPreview sampleHost
                   (sampleOpen ''http://insecure.example'' False (AddressInfo 54321))
                   (activate sampleDocs))) = [Listening 54321]
   \<and> panels (snd (openPreview sampleHost
                     (sampleOpen ''http://insecure.example'' False (AddressInfo 54321))
                     (activate sampleDocs))) 0
       = Some \<lparr>html = Some (LocalBundled,
                            \<lparr>src = bundledDemoUri sampleHost,
                             frameSrcCsp = cspSource sampleHost @ '' vscode-resource:'',
                             targetOrigin = ''*''\<rparr>),
               disposed = False\<rparr>"
proof -
  let ?req = "sampleOpen ''http://insecure.example'' False (AddressInfo 54321)"
  have a: "\<not> allowHttp_of (configuration ?req)"
    and r: "\<not> isHttpsUrl sampleHost (Some (remoteUrl_of (configuration ?req)))"
    and l: "listenOutcome ?req = AddressInfo 54321"
    using sample_editor(5)
    by (simp_all add: sampleOpen_def allowHttp_of_def remoteUrl_of_def cfg_get_def)
  from bundled_when_http_disallowed [OF sample_editor(1,2,3) a r, of None 54321] l
  show ?thesis
    by (simp add: activate_def)
qed

theorem allowHttp_false_starts_server_counterexample:
  "\<not> allowHttp_of (configuration (sampleOpen [] False (AddressInfo 54321)))
   \<and> \<not> isHttpsUrl sampleHost
         (Some (remoteUrl_of (configuration (sampleOpen [] False (AddressInfo 54321)))))
   \<and> servers (activate sampleDocs) = []
   \<and> servers (snd (openPreview sampleHost (sampleOpen [] False (AddressInfo 54321))
                     (activate sampleDocs))) = [Listening 54321]"
  unfolding openPreview_fresh [OF sample_editor(1,2,3)]
  by (simp add: Let_def startUnlessRemote_def startDemoServer_def isHttpsUrl_def
      resolveAppSrc_def truthy_def sampleOpen_def remoteUrl_of_def allowHttp_of_def
      cfg_get_def installSession_fields activate_def)

text \<open>
  C3, as the code has it. A configured remote URL that does not parse is treated as
  absent and raises nothing: the command does exactly what it does with the setting unset.
  A failure to start the local server (the listen fails, or the server has no address
  record) is not caught: the command rejects with the error, the panel it created is left
  without content, and no session, timer or map entry is made.
\<close>

theorem start_failure_rejects:
  "(newURL host v = None \<longrightarrow>
      \<not> isHttpsUrl host (Some v)
      \<and> openPreview host (req\<lparr>configuration := (configuration req)\<lparr>cfg_remoteUrl := Some v\<rparr>\<rparr>) w
          = openPreview host (req\<lparr>configuration := (configuration req)\<lparr>cfg_remoteUrl := None\<rparr>\<rparr>) w)
   \<and> (activeTextEditor req = Some k \<and> isYaml (documents w k) \<and> previewByDoc w k = None
        \<and> \<not> isHttpsUrl host (Some (remoteUrl_of (configuration req)))
        \<and> (\<forall>port. listenOutcome req \<noteq> AddressInfo port) \<longrightarrow>
        (\<exists>e. fst (openPreview host req w) = Some e)
        \<and> panels (snd (openPreview host req w)) (nextPanel w)
            = Some \<lparr>html = None, disposed = False\<rparr>
        \<and> previewByDoc (snd (openPreview host req w)) = previewByDoc w
        \<and> sessions (snd (openPreview host req w)) = sessions w
        \<and> timeouts (snd (openPreview host req w)) = timeouts w)"
proof -
  have malformed: "\<not> isHttpsUrl host (Some v)
      \<and> openPreview host (req\<lparr>configuration := (configuration req)\<lparr>cfg_remoteUrl := Some v\<rparr>\<rparr>) w
          = openPreview host (req\<lparr>configuration := (configuration req)\<lparr>cfg_remoteUrl := None\<rparr>\<rparr>) w"
    if m: "newURL host v = None"
  proof -
    have h: "isHttpsUrl host (Some v) = isHttpsUrl host (Some [])"
      using m by (simp add: isHttpsUrl_def)
    have r: "resolveAppSrc host v demoUrl a = resolveAppSrc host [] demoUrl a" for demoUrl a
      using m by (simp add: resolveAppSrc_def isHttpsUrl_def)
    have s: "startUnlessRemote host v outcome w' = startUnlessRemote host [] outcome w'"
      for outcome w'
      by (simp add: startUnlessRemote_def h)
    have "openPreview host (req\<lparr>configuration := (configuration req)\<lparr>cfg_remoteUrl := Some v\<rparr>\<rparr>) w
          = openPreview host (req\<lparr>configuration := (configuration req)\<lparr>cfg_remoteUrl := None\<rparr>\<rparr>) w"
      by (simp add: openPreview_def remoteUrl_of_def debounceMs_of_def allowHttp_of_def
          cfg_get_def Let_def case_prod_beta r s cong: option.case_cong if_cong sum.case_cong)
    with m show ?thesis
      by (simp add: isHttpsUrl_def)
  qed
  have failed: "(\<exists>e. fst (openPreview host req w) = Some e)
        \<and> panels (snd (openPreview host req w)) (nextPanel w)
            = Some \<lparr>html = None, disposed = False\<rparr>
        \<and> previewByDoc (snd (openPreview host req w)) = previewByDoc w
        \<and> sessions (snd (openPreview host req w)) = sessions w
        \<and> timeouts (snd (openPreview host req w)) = timeouts w"
    if a: "activeTextEditor req = Some k \<and> isYaml (documents w k) \<and> previewByDoc w k = None
        \<and> \<not> isHttpsUrl host (Some (remoteUrl_of (configuration req)))
        \<and> (\<forall>port. listenOutcome req \<noteq> AddressInfo port)"
  proof -
    from a have k: "activeTextEditor req = Some k" "isYaml (documents w k)"
      "previewByDoc w k = None"
      by simp_all
    have st: "\<exists>e. fst (startUnlessRemote host (remoteUrl_of (configuration req))
                         (listenOutcome req) w') = Inl e" for w'
      using a
      by (cases "listenOutcome req") (simp_all add: startUnlessRemote_def startDemoServer_def)
    show ?thesis
      unfolding openPreview_fresh [OF k]
      using st [of "w\<lparr>panels := (panels w)(nextPanel w := Some \<lparr>html = None, disposed = False\<rparr>),
                      nextPanel := Suc (nextPanel w)\<rparr>"] a
      by (auto simp: Let_def snd_startUnlessRemote)
  qed
  from malformed failed show ?thesis
    by blast
qed

theorem start_failure_rejects_witness:
  "\<not> isHttpsUrl sampleHost (Some ''not a url'')
   \<and> openPreview sampleHost (sampleOpen ''not a url'' True AddressNull) (activate sampleDocs)
       = openPreview sampleHost
           ((sampleOpen ''not a url'' True AddressNull)
              \<lparr>configuration := (configuration (sampleOpen ''not a url'' True AddressNull))
                                   \<lparr>cfg_remoteUrl := None\<rparr>\<rparr>)
           (activate sampleDocs)
   \<and> (\<exists>e. fst (openPreview sampleHost (sampleOpen ''not a url'' True AddressNull)
                   (activate sampleDocs)) = Some e)
   \<and> panels (snd (openPreview sampleHost (sampleOpen ''not a url'' True AddressNull)
                    (activate sampleDocs))) 0
       = Some \<lparr>html = None, disposed = False\<rparr>
   \<and> previewByDoc (snd (openPreview sampleHost (sampleOpen ''not a url'' True AddressNull)
                          (activate sampleDocs))) sampleKey = None"
proof -
  let ?req = "sampleOpen ''not a url'' True AddressNull"
  have m: "newURL sampleHost ''not a url'' = None"
    by (simp add: sampleHost_def sampleURL_def)
  have r: "\<not> isHttpsUrl sampleHost (Some (remoteUrl_of (configuration ?req)))"
    using m by (simp add: isHttpsUrl_def sampleOpen_def remoteUrl_of_def cfg_get_def)
  have l: "\<forall>port. listenOutcome ?req \<noteq> AddressInfo port"
    by (simp add: sampleOpen_def)
  have c: "?req\<lparr>configuration := (configuration ?req)\<lparr>cfg_remoteUrl := Some ''not a url''\<rparr>\<rparr> = ?req"
    by (simp add: sampleOpen_def)
  note t = start_failure_rejects [of sampleHost "''not a url''" ?req "activate sampleDocs" sampleKey]
  from t m have "\<not> isHttpsUrl sampleHost (Some ''not a url'')
      \<and> openPreview sampleHost
           (?req\<lparr>configuration := (configuration ?req)\<lparr>cfg_remoteUrl := Some ''not a url''\<rparr>\<rparr>)
           (activate sampleDocs)
        = openPreview sampleHost
           (?req\<lparr>configuration := (configuration ?req)\<lparr>cfg_remoteUrl := None\<rparr>\<rparr>)
           (activate sampleDocs)"
    by blast
  then have a: "\<not> isHttpsUrl sampleHost (Some ''not a url'')
      \<and> openPreview sampleHost ?req (activate sampleDocs)
        = openPreview sampleHost
           (?req\<lparr>configuration := (configuration ?req)\<lparr>cfg_remoteUrl := None\<rparr>\<rparr>)
           (activate sampleDocs)"
    unfolding c .
  from t r l sample_editor(1) [of "''not a url''" True AddressNull] sample_editor(2,3)
  have b: "(\<exists>e. fst (openPreview sampleHost ?req (activate sampleDocs)) = Some e)
        \<and> panels (snd (openPreview sampleHost ?req (activate sampleDocs)))
             (nextPanel (activate sampleDocs))
            = Some \<lparr>html = None, disposed = False\<rparr>
        \<and> previewByDoc (snd (openPreview sampleHost ?req (activate sampleDocs)))
            = previewByDoc (activate sampleDocs)"
    by blast
  have n: "nextPanel (activate sampleDocs) = 0" "previewByDoc (activate sampleDocs) sampleKey = None"
    by (simp_all add: activate_def)
  from b have b': "(\<exists>e. fst (openPreview sampleHost ?req (activate sampleDocs)) = Some e)
        \<and> panels (snd (openPreview sampleHost ?req (activate sampleDocs))) 0
            = Some \<lparr>html = None, disposed = False\<rparr>
        \<and> previewByDoc (snd (openPreview sampleHost ?req (activate sampleDocs))) sampleKey = None"
    unfolding n(1) using n(2) by metis
  from a b' show ?thesis by blast
qed

theorem server_failure_rejects_counterexample:
  "fst (openPreview sampleHost (sampleOpen [] True ListenFails) (activate sampleDocs))
     = Some ListenError
   \<and> panels (snd (openPreview sampleHost (sampleOpen [] True ListenFails)
                    (activate sampleDocs))) 0
       = Some \<lparr>html = None, disposed = False\<rparr>
   \<and> previewByDoc (snd (openPreview sampleHost (sampleOpen [] True ListenFails)
                          (activate sampleDocs))) sampleKey = None"
  unfolding openPreview_fresh [OF sample_editor(1,2,3)]
  by (simp add: Let_def startUnlessRemote_def startDemoServer_def isHttpsUrl_def
      sampleOpen_def remoteUrl_of_def cfg_get_def activate_def)

subsection \<open>Disposal and timers\<close>

text \<open>
  C2. Let a state be reached by a run, and let a panel of it be closed, so that its
  dispose event fires. Then whatever happens afterwards (invocations of the command and
  their awaits settling, changes of documents, panels closing, time passing), no message
  is posted to that panel: the messages posted to it stay those posted before. In
  particular the dispose handler leaves the pending timers as they are, and a timer of
  the panel that is due later fires and posts nothing, since the callback reads
  \<^verbatim>\<open>panel.webview\<close> of a disposed panel and the editor throws there.
\<close>

theorem no_post_after_dispose:
  assumes "wellFormed w" "panels w p = Some pn"
  shows "postsTo p (run host (disposePanel p w) es) = postsTo p w
         \<and> timeouts (disposePanel p w) = timeouts w
         \<and> postsTo p (advance T (disposePanel p w)) = postsTo p w
         \<and> pendingFor p (advance T (disposePanel p w))
             = filter (\<lambda>tm. \<not> due tm \<le> T) (pendingFor p w)"
proof -
  have wf: "wellFormed (disposePanel p w)"
    using assms(1) by (rule wellFormed_disposePanel)
  have d: "panelDisposed (disposePanel p w) p"
    using assms(2) by (rule panelDisposed_disposePanel)
  have same: "postsTo p (disposePanel p w) = postsTo p w"
    by (simp add: postsTo_def disposed_disposePanel)
  from run_disposed [OF wf d, of host es] same
  have "postsTo p (run host (disposePanel p w) es) = postsTo p w"
    by simp
  moreover have "postsTo p (advance T (disposePanel p w)) = postsTo p w"
    using d same by (simp add: postsTo_advance)
  moreover have "pendingFor p (advance T (disposePanel p w))
             = filter (\<lambda>tm. \<not> due tm \<le> T) (pendingFor p w)"
    by (simp add: pendingFor_advance) (simp add: pendingFor_def timeouts_disposePanel)
  ultimately show ?thesis
    by (simp add: timeouts_disposePanel)
qed

text \<open>
  The sample session is closed while its first timer is pending. The timer stays, fires
  at 300, and posts nothing; the callback's error is uncaught. A change of the document
  afterwards starts no timer.
\<close>

theorem no_post_after_dispose_witness:
  "postsTo 0 (run sampleHost (disposePanel 0 (sampleSession None))
                [Change sampleKey ''a: 2'' 2, Advance 300, Advance 1000]) = []
   \<and> timeouts (disposePanel 0 (sampleSession None))
       = [\<lparr>handle = 0, due = 300, cbPanel = 0, cbDoc = sampleKey\<rparr>]
   \<and> postsTo 0 (advance 300 (disposePanel 0 (sampleSession None))) = []
   \<and> pendingFor 0 (advance 300 (disposePanel 0 (sampleSession None))) = []
   \<and> uncaught (advance 300 (disposePanel 0 (sampleSession None))) = [WebviewDisposed]"
proof -
  have u: "uncaught (advance 300 (disposePanel 0 (sampleSession None))) = [WebviewDisposed]"
    by (simp add: advance_def timerCallback_def timeouts_disposePanel sampleSession_fields
        panelDisposed_def disposePanel_def onDidDispose_def timerDelay_def debounceMs_of_def
        cfg_get_def sampleConfig_def)
  have t: "timerDelay (nat (debounceMs_of (sampleConfig None))) = 300"
    by (simp add: timerDelay_def debounceMs_of_def cfg_get_def sampleConfig_def)
  from no_post_after_dispose [OF wellFormed_sampleSession [of None] sampleSession_fields(10) [of None],
         where host = sampleHost and T = 300
           and es = "[Change sampleKey ''a: 2'' 2, Advance 300, Advance 1000]"] u
  show ?thesis
    by (simp add: postsTo_def pendingFor_def sampleSession_fields t)
qed

subsection \<open>Debounce\<close>




subsection \<open>Two invocations for one document\<close>

text \<open>
  C7. The command is invoked twice for the sample document, the second time while the
  first invocation awaits \<^verbatim>\<open>showTextDocument\<close> (line 36). The entry of the map is
  written at line 93 only, so both invocations pass the check of lines 29 to 33: nothing
  is revealed, and the document ends with two live sessions, two listening servers and
  two timers, the entry pointing to the second panel. Closing the first panel then
  deletes that entry while the second session is live. When the second invocation comes
  after the first has finished, it reveals the panel and the document has one live
  session.
\<close>

theorem overlapping_opens_two_sessions:
  "liveSessions sampleOverlap sampleKey = [0, 1]
   \<and> servers sampleOverlap = [Listening 54321, Listening 54322]
   \<and> previewByDoc sampleOverlap sampleKey = Some 1
   \<and> revealed sampleOverlap = []
   \<and> map cbPanel (timeouts sampleOverlap) = [0, 1]
   \<and> previewByDoc (disposePanel 0 sampleOverlap) sampleKey = None
   \<and> liveSessions (disposePanel 0 sampleOverlap) sampleKey = [1]
   \<and> liveSessions (run sampleHost (sampleSession None) [Invoke (Some sampleKey)]) sampleKey = [0]
   \<and> revealed (run sampleHost (sampleSession None) [Invoke (Some sampleKey)]) = [0]"
  by (simp add: sampleOverlap_def sampleSession_def run_def invokeOpen_def resumeShown_def
      resumeListened_def finishOpen_def panelDisposed_def serverStateOf_def Let_def isYaml_def
      isHttpsUrl_def resolveAppSrc_def truthy_def demoServerUrl_def showNat.simps remoteUrl_of_def
      allowHttp_of_def cfg_get_def sampleHost_def sampleURL_def sampleConfig_def sampleDocs_def
      installSession_fields activate_def liveSessions_def liveSession_def disposePanel_def
      onDidDispose_def closeServer_def upt_conv_Cons)

end
